theory Spec2Isabelle
  imports Complex_Main
begin

section \<open>Text primitives of the Python sources\<close>

text \<open>
  The scripts read text files line by line and take them apart with \<^verbatim>\<open>str.strip\<close>,
  \<^verbatim>\<open>str.split\<close>, \<^verbatim>\<open>str.startswith\<close>, the \<^verbatim>\<open>in\<close> test and four regular
  expressions. A line is a \<^typ>\<open>string\<close>; the characters are read as ASCII code points.

  The built-in conversions \<^verbatim>\<open>int(s)\<close> and \<^verbatim>\<open>float(s)\<close> are parameters of every parser
  below (\<open>to_int\<close>, \<open>to_float\<close>): \<open>None\<close> stands for the \<^verbatim>\<open>ValueError\<close> they raise, and
  the type \<open>'f\<close> of shift values is left open, so that no property depends on how a
  decimal numeral is rounded.
\<close>

definition is_space :: "char \<Rightarrow> bool" where
  \<comment> \<open>the ASCII characters for which \<^verbatim>\<open>str.isspace\<close> holds\<close>
  "is_space c \<longleftrightarrow>
     c \<in> set [CHR 0x09, CHR 0x0A, CHR 0x0B, CHR 0x0C, CHR 0x0D,
              CHR 0x1C, CHR 0x1D, CHR 0x1E, CHR 0x1F, CHR 0x20]"

definition is_digit :: "char \<Rightarrow> bool" where
  \<comment> \<open>\<^verbatim>\<open>\d\<close>\<close>
  "is_digit c \<longleftrightarrow> c \<in> set ''0123456789''"

definition is_upper :: "char \<Rightarrow> bool" where
  \<comment> \<open>\<^verbatim>\<open>[A-Z]\<close>\<close>
  "is_upper c \<longleftrightarrow> c \<in> set ''ABCDEFGHIJKLMNOPQRSTUVWXYZ''"

definition is_shift_char :: "char \<Rightarrow> bool" where
  \<comment> \<open>\<^verbatim>\<open>[\d.]\<close>\<close>
  "is_shift_char c \<longleftrightarrow> is_digit c \<or> c = CHR ''.''"

definition strip :: "string \<Rightarrow> string" where
  \<comment> \<open>\<^verbatim>\<open>s.strip()\<close>\<close>
  "strip s = rev (dropWhile is_space (rev (dropWhile is_space s)))"

definition startswith :: "string \<Rightarrow> string \<Rightarrow> bool" where
  \<comment> \<open>\<^verbatim>\<open>s.startswith(p)\<close>\<close>
  "startswith s p \<longleftrightarrow> take (length p) s = p"

fun contains :: "string \<Rightarrow> string \<Rightarrow> bool" where
  \<comment> \<open>\<^verbatim>\<open>p in s\<close>\<close>
  "contains p [] \<longleftrightarrow> p = []"
| "contains p (c # cs) \<longleftrightarrow> startswith (c # cs) p \<or> contains p cs"

fun split_from :: "string \<Rightarrow> string \<Rightarrow> string list" where
  \<comment> \<open>the fields of \<^verbatim>\<open>s.split()\<close>, with the field being read in the first argument\<close>
  "split_from cur [] = (if cur = [] then [] else [cur])"
| "split_from cur (c # cs) =
     (if is_space c then (if cur = [] then split_from [] cs else cur # split_from [] cs)
      else split_from (cur @ [c]) cs)"

definition split :: "string \<Rightarrow> string list" where
  \<comment> \<open>\<^verbatim>\<open>s.split()\<close>: the maximal runs of non-whitespace characters\<close>
  "split s = split_from [] s"

definition slice :: "nat \<Rightarrow> nat \<Rightarrow> string \<Rightarrow> string" where
  \<comment> \<open>\<^verbatim>\<open>s[i:j]\<close> for \<open>0 \<le> i \<le> j\<close>; short strings give short (or empty) slices\<close>
  "slice i j s = take (j - i) (drop i s)"

definition match_header :: "string \<Rightarrow> bool" where
  \<comment> \<open>\<^verbatim>\<open>re.match(r"^[A-Z]\d+", line)\<close> finds a match\<close>
  "match_header line \<longleftrightarrow>
     (case line of c # d # _ \<Rightarrow> is_upper c \<and> is_digit d | _ \<Rightarrow> False)"

definition match_upper :: "string \<Rightarrow> string option" where
  \<comment> \<open>\<^verbatim>\<open>re.match(r"^[A-Z]", line)\<close>: the matched text\<close>
  "match_upper line =
     (case line of c # _ \<Rightarrow> if is_upper c then Some [c] else None | [] \<Rightarrow> None)"

definition search_digits :: "string \<Rightarrow> string option" where
  \<comment> \<open>\<^verbatim>\<open>re.search(r"\d+", line)\<close>: the leftmost, longest run of digits\<close>
  "search_digits line =
     (let r = dropWhile (\<lambda>c. \<not> is_digit c) line
      in if r = [] then None else Some (takeWhile is_digit r))"

fun search_shift :: "string \<Rightarrow> string \<Rightarrow> string option" where
  \<comment> \<open>\<^verbatim>\<open>re.search(key + r" :: ([\d.]+)", line)\<close>: group 1 of the leftmost match\<close>
  "search_shift key [] = None"
| "search_shift key (c # cs) =
     (let g = takeWhile is_shift_char (drop (length (key @ '' :: '')) (c # cs))
      in if startswith (c # cs) (key @ '' :: '') \<and> g \<noteq> [] then Some g
         else search_shift key cs)"

section \<open>The summary-format shift parser (main.py)\<close>

text \<open>
  \<^verbatim>\<open>parse_chemical_shifts\<close> of main.py builds one dictionary per residue header and
  appends it to the result when the next \<^verbatim>\<open>Ave C Shift Values>>\<close> line is read. The
  dictionary is a record; its three shift entries start as \<^verbatim>\<open>None\<close>.
\<close>

record 'f shift_rec =
  Residue_Type :: string
  Residue_ID :: int
  C_Shift :: "'f option"
  CA_Shift :: "'f option"
  CB_Shift :: "'f option"

definition float_group :: "(string \<Rightarrow> 'f option) \<Rightarrow> string option \<Rightarrow> 'f option option" where
  \<comment> \<open>\<^verbatim>\<open>if m: d[k] = float(m.group(1))\<close> on an entry that holds \<^verbatim>\<open>None\<close>: the new entry,
      or \<open>None\<close> when \<^verbatim>\<open>float\<close> raises\<close>
  "float_group to_float m =
     (case m of None \<Rightarrow> Some None
      | Some g \<Rightarrow> (case to_float g of None \<Rightarrow> None | Some v \<Rightarrow> Some (Some v)))"

definition main_shift_step ::
  "(string \<Rightarrow> int option) \<Rightarrow> (string \<Rightarrow> 'f option) \<Rightarrow>
   'f shift_rec option \<times> 'f shift_rec list \<Rightarrow> string \<Rightarrow>
   ('f shift_rec option \<times> 'f shift_rec list) option" where
  \<comment> \<open>one turn of the \<^verbatim>\<open>for line in lines\<close> loop on the state
      \<open>(current_residue, shifts)\<close>; \<open>None\<close> when the body raises\<close>
  "main_shift_step to_int to_float st raw =
     (let line = strip raw; current_residue = fst st; shifts = snd st in
      if match_header line then
        (case match_upper line of None \<Rightarrow> None
         | Some t \<Rightarrow>
           (case search_digits line of None \<Rightarrow> None
            | Some ds \<Rightarrow>
              (case to_int ds of None \<Rightarrow> None
               | Some n \<Rightarrow>
                 Some (Some \<lparr>Residue_Type = t, Residue_ID = n, C_Shift = None,
                              CA_Shift = None, CB_Shift = None\<rparr>, shifts))))
      else if startswith line ''Ave C Shift Values>>'' then
        (case current_residue of None \<Rightarrow> Some (None, shifts)
         | Some r \<Rightarrow>
           (let c_shift = search_shift ''C'' line;
                ca_shift = search_shift ''CA'' line;
                cb_shift = search_shift ''CB'' line in
            case float_group to_float c_shift of None \<Rightarrow> None
            | Some c \<Rightarrow>
              (case float_group to_float ca_shift of None \<Rightarrow> None
               | Some ca \<Rightarrow>
                 (case float_group to_float cb_shift of None \<Rightarrow> None
                  | Some cb \<Rightarrow>
                    Some (None, shifts @ [r\<lparr>C_Shift := c, CA_Shift := ca, CB_Shift := cb\<rparr>])))))
      else Some (current_residue, shifts))"

fun main_shift_loop ::
  "(string \<Rightarrow> int option) \<Rightarrow> (string \<Rightarrow> 'f option) \<Rightarrow> string list \<Rightarrow>
   'f shift_rec option \<times> 'f shift_rec list \<Rightarrow> 'f shift_rec list" where
  \<comment> \<open>the loop inside \<^verbatim>\<open>try\<close>; the handler logs and falls through to
      \<^verbatim>\<open>return shifts\<close>, so a raise returns the records appended so far\<close>
  "main_shift_loop to_int to_float [] st = snd st"
| "main_shift_loop to_int to_float (l # ls) st =
     (case main_shift_step to_int to_float st l of
        None \<Rightarrow> snd st
      | Some st' \<Rightarrow> main_shift_loop to_int to_float ls st')"

definition main_parse_lines ::
  "(string \<Rightarrow> int option) \<Rightarrow> (string \<Rightarrow> 'f option) \<Rightarrow> string list \<Rightarrow> 'f shift_rec list" where
  \<comment> \<open>\<^verbatim>\<open>parse_chemical_shifts\<close> of main.py after \<^verbatim>\<open>lines = file.readlines()\<close>\<close>
  "main_parse_lines to_int to_float lines = main_shift_loop to_int to_float lines (None, [])"


section \<open>The tabular-format shift parser (process\_nmr\_data.py)\<close>

text \<open>
  \<^verbatim>\<open>parse_chemical_shifts\<close> of process\_nmr\_data.py returns a dictionary from residue
  numbers to dictionaries from atom names to shift values: a map of maps. The state of
  its loop is \<open>(in_shift_block, shifts)\<close>. The inner \<^verbatim>\<open>try\<close> catches the
  \<^verbatim>\<open>ValueError\<close> of both conversions and goes on to the next line.
\<close>

type_synonym 'f shift_map = "int \<rightharpoonup> (string \<rightharpoonup> 'f)"

definition nmr_shift_step ::
  "(string \<Rightarrow> int option) \<Rightarrow> (string \<Rightarrow> 'f option) \<Rightarrow>
   bool \<times> 'f shift_map \<Rightarrow> string \<Rightarrow> bool \<times> 'f shift_map" where
  "nmr_shift_step to_int to_float st line =
     (let in_shift_block = fst st; shifts = snd st in
      if contains ''_Atom_chem_shift.'' line then (True, shifts)
      else if in_shift_block then
        (if strip line = [] \<or> startswith (strip line) ''#'' then (in_shift_block, shifts)
         else
           (let parts = split line in
            if length parts \<ge> 4 then
              (case to_int (parts ! 1) of None \<Rightarrow> (in_shift_block, shifts)
               | Some residue_number \<Rightarrow>
                 (let atom_name = parts ! 2 in
                  case to_float (parts ! 3) of None \<Rightarrow> (in_shift_block, shifts)
                  | Some shift_value \<Rightarrow>
                    (let atoms = (case shifts residue_number of None \<Rightarrow> Map.empty
                                  | Some d \<Rightarrow> d)
                     in (in_shift_block,
                         shifts(residue_number \<mapsto> atoms(atom_name \<mapsto> shift_value))))))
            else (in_shift_block, shifts)))
      else (in_shift_block, shifts))"

definition nmr_parse_lines ::
  "(string \<Rightarrow> int option) \<Rightarrow> (string \<Rightarrow> 'f option) \<Rightarrow> string list \<Rightarrow> 'f shift_map" where
  \<comment> \<open>after \<^verbatim>\<open>lines = f.readlines()\<close>; an empty file returns the empty dictionary
      at once, which is what the loop gives on no lines\<close>
  "nmr_parse_lines to_int to_float lines =
     (if lines = [] then Map.empty
      else snd (foldl (nmr_shift_step to_int to_float) (False, Map.empty) lines))"

section \<open>The structure parser (main.py and process\_nmr\_data.py)\<close>

text \<open>
  Both scripts hold the same \<^verbatim>\<open>parse_secondary_structures\<close>. Its first pass reads the
  HELIX and SHEET records by column; an \<^verbatim>\<open>int\<close> that raises leaves the function through
  the handler with the empty result list. Its second pass walks the first model of the
  structure that Biopython's \<^verbatim>\<open>PDBParser\<close> builds. That library is not part of the
  repository: the chains of the first model (\<open>None\<close> when building or indexing the
  structure raises) and the test \<^verbatim>\<open>Polypeptide.is_aa(residue, standard=True)\<close> are
  parameters.
\<close>

record pdb_residue =
  hetfield :: string
  resseq :: int
  icode :: string
  resname :: string

record structure_rec =
  ss_Residue_ID :: int
  ss_Residue_Type :: string
  ss_Secondary_Structure :: string

definition assign_range :: "(int \<rightharpoonup> string) \<Rightarrow> int \<Rightarrow> int \<Rightarrow> string \<Rightarrow> (int \<rightharpoonup> string)" where
  \<comment> \<open>\<^verbatim>\<open>for res_id in range(start, end + 1): secondary_structures[res_id] = code\<close>\<close>
  "assign_range m start end code = foldl (\<lambda>m res_id. m(res_id \<mapsto> code)) m [start..end]"

definition ss_step ::
  "(string \<Rightarrow> int option) \<Rightarrow> (int \<rightharpoonup> string) \<Rightarrow> string \<Rightarrow> (int \<rightharpoonup> string) option" where
  \<comment> \<open>one line of the first pass; \<open>None\<close> when an \<^verbatim>\<open>int\<close> raises\<close>
  "ss_step to_int secondary_structures line =
     (if startswith line ''HELIX'' then
        (case to_int (strip (slice 21 25 line)) of None \<Rightarrow> None
         | Some start \<Rightarrow>
           (case to_int (strip (slice 33 37 line)) of None \<Rightarrow> None
            | Some end \<Rightarrow> Some (assign_range secondary_structures start end ''H'')))
      else if startswith line ''SHEET'' then
        (case to_int (strip (slice 22 26 line)) of None \<Rightarrow> None
         | Some start \<Rightarrow>
           (case to_int (strip (slice 33 37 line)) of None \<Rightarrow> None
            | Some end \<Rightarrow> Some (assign_range secondary_structures start end ''E'')))
      else Some secondary_structures)"

fun ss_first_pass ::
  "(string \<Rightarrow> int option) \<Rightarrow> string list \<Rightarrow> (int \<rightharpoonup> string) \<Rightarrow> (int \<rightharpoonup> string) option" where
  "ss_first_pass to_int [] m = Some m"
| "ss_first_pass to_int (l # ls) m =
     (case ss_step to_int m l of None \<Rightarrow> None
      | Some m' \<Rightarrow> ss_first_pass to_int ls m')"

definition ss_second_pass ::
  "(pdb_residue \<Rightarrow> bool) \<Rightarrow> (int \<rightharpoonup> string) \<Rightarrow> pdb_residue list list \<Rightarrow> structure_rec list" where
  \<comment> \<open>the nested loop over the chains and their residues\<close>
  "ss_second_pass is_aa secondary_structures model_chains =
     map (\<lambda>residue.
            \<lparr>ss_Residue_ID = resseq residue,
             ss_Residue_Type = strip (resname residue),
             ss_Secondary_Structure =
               (case secondary_structures (resseq residue) of None \<Rightarrow> ''C'' | Some c \<Rightarrow> c)\<rparr>)
         (filter is_aa (concat model_chains))"

definition ss_parse_lines ::
  "(string \<Rightarrow> int option) \<Rightarrow> (pdb_residue \<Rightarrow> bool) \<Rightarrow> pdb_residue list list option \<Rightarrow>
   string list \<Rightarrow> structure_rec list" where
  \<comment> \<open>the body of \<^verbatim>\<open>try\<close> on the lines of the opened file and the chains of its
      first model\<close>
  "ss_parse_lines to_int is_aa model lines =
     (case ss_first_pass to_int lines Map.empty of None \<Rightarrow> []
      | Some secondary_structures \<Rightarrow>
        (case model of None \<Rightarrow> []
         | Some model_chains \<Rightarrow> ss_second_pass is_aa secondary_structures model_chains))"

section \<open>The join\<close>

record 'f combined_rec =
  out_Residue_ID :: int
  out_Residue_Type :: string
  out_C_Shift :: "'f option"
  out_CA_Shift :: "'f option"
  out_CB_Shift :: "'f option"
  out_Secondary_Structure :: string

definition chem_shifts_dict :: "'f shift_rec list \<Rightarrow> (int \<rightharpoonup> 'f shift_rec)" where
  \<comment> \<open>\<^verbatim>\<open>{entry["Residue_ID"]: entry for entry in chem_shifts}\<close>\<close>
  "chem_shifts_dict chem_shifts =
     foldl (\<lambda>d entry. d(Residue_ID entry \<mapsto> entry)) Map.empty chem_shifts"

definition dict_get :: "'a option \<Rightarrow> ('a \<Rightarrow> 'b option) \<Rightarrow> 'b option" where
  \<comment> \<open>\<^verbatim>\<open>d.get(k, {}).get(f)\<close>, given \<^verbatim>\<open>d.get(k)\<close>: \<^verbatim>\<open>None\<close> when either key is absent\<close>
  "dict_get e f = (case e of None \<Rightarrow> None | Some x \<Rightarrow> f x)"

definition main_join :: "'f shift_rec list \<Rightarrow> structure_rec list \<Rightarrow> 'f combined_rec list" where
  \<comment> \<open>\<^verbatim>\<open>combine_data\<close> of main.py, after the two parsers have returned\<close>
  "main_join chem_shifts sec_structures =
     (let d = chem_shifts_dict chem_shifts in
      map (\<lambda>res.
             (let res_id = ss_Residue_ID res;
                  res_type = ss_Residue_Type res;
                  sec_struct = ss_Secondary_Structure res;
                  shifts = d res_id
              in \<lparr>out_Residue_ID = res_id,
                  out_Residue_Type = res_type,
                  out_C_Shift = dict_get shifts C_Shift,
                  out_CA_Shift = dict_get shifts CA_Shift,
                  out_CB_Shift = dict_get shifts CB_Shift,
                  out_Secondary_Structure = sec_struct\<rparr>))
          sec_structures)"

definition nmr_join :: "'f shift_map \<Rightarrow> structure_rec list \<Rightarrow> 'f combined_rec list" where
  \<comment> \<open>\<^verbatim>\<open>combine_data\<close> of process\_nmr\_data.py, after the two parsers have returned\<close>
  "nmr_join chem_shifts sec_structures =
     map (\<lambda>res.
            (let res_id = ss_Residue_ID res;
                 res_type = ss_Residue_Type res;
                 sec_struct = ss_Secondary_Structure res;
                 ca_shift = dict_get (chem_shifts res_id) (\<lambda>d. d ''CA'');
                 cb_shift = dict_get (chem_shifts res_id) (\<lambda>d. d ''CB'');
                 c_shift = dict_get (chem_shifts res_id) (\<lambda>d. d ''C'')
             in \<lparr>out_Residue_ID = res_id,
                 out_Residue_Type = res_type,
                 out_C_Shift = c_shift,
                 out_CA_Shift = ca_shift,
                 out_CB_Shift = cb_shift,
                 out_Secondary_Structure = sec_struct\<rparr>))
         sec_structures"

section \<open>Files, the network and the batch driver (main.py)\<close>

text \<open>
  The fetch functions and the driver act on the file system and the network. The state
  they change is a record: the files by path, the URLs requested so far, and the
  messages written. Of the messages, the model keeps those of the fetch functions and of
  the driver; the parsers and the CSV writer also log, and nothing reads those lines back.

  What the program cannot decide is a parameter, collected in one record: the two
  conversions, Biopython's view of a PDB file, pandas' rendering of the table, the answer
  of the network to a request (which may depend on the requests made before it), whether
  a path can be opened for writing, and the three directories computed from the
  script's location.
\<close>

datatype http_result =
  Response nat string  \<comment> \<open>\<^verbatim>\<open>status_code\<close> and \<^verbatim>\<open>content\<close>\<close>
| Request_Raised       \<comment> \<open>\<^verbatim>\<open>requests.get\<close> raised (connection error, timeout)\<close>

datatype channel = INFO | WARNING | ERROR | PRINT

datatype message =
  Downloaded_BMRB string
| BMRB_not_found string
| Error_downloading_BMRB string
| PDB_already_exists string
| Attempting_PDB string
| Downloaded_PDB string
| PDB_not_found string
| Error_downloading_PDB string
| Skipping_entry string string
| No_valid_data

record world =
  files :: "string \<rightharpoonup> string"
  requests :: "string list"
  log :: "(channel \<times> message) list"

record 'f env =
  conv_int :: "string \<Rightarrow> int option"
  conv_float :: "string \<Rightarrow> 'f option"
  pdb_model :: "string \<Rightarrow> pdb_residue list list option"
  is_aa_standard :: "pdb_residue \<Rightarrow> bool"
  to_csv :: "'f combined_rec list \<Rightarrow> string option"
  http_get :: "string list \<Rightarrow> string \<Rightarrow> http_result"
  can_write :: "string \<Rightarrow> bool"
  BMRB_DIR :: string
  PDB_DIR :: string
  OUTPUT_DIR :: string

record entry =
  BMRB_ID :: string
  PDB_ID :: string

fun readlines_from :: "bool \<Rightarrow> string \<Rightarrow> string \<Rightarrow> string list" where
  \<comment> \<open>text mode with universal newlines: each of LF, CR and CR LF ends a line and is
      read as LF. The flag says that the last character was CR; the string is the line
      being read\<close>
  "readlines_from cr cur [] = (if cur = [] then [] else [cur])"
| "readlines_from cr cur (c # cs) =
     (if c = CHR 0x0A \<and> cr then readlines_from False cur cs
      else if c = CHR 0x0A then (cur @ [CHR 0x0A]) # readlines_from False [] cs
      else if c = CHR 0x0D then (cur @ [CHR 0x0A]) # readlines_from True [] cs
      else readlines_from False (cur @ [c]) cs)"

definition readlines :: "string \<Rightarrow> string list" where
  \<comment> \<open>\<^verbatim>\<open>file.readlines()\<close>, and the lines of \<^verbatim>\<open>for line in f\<close>\<close>
  "readlines content = readlines_from False [] content"

definition path_join :: "string \<Rightarrow> string \<Rightarrow> string" where
  \<comment> \<open>\<^verbatim>\<open>os.path.join(a, b)\<close> on POSIX\<close>
  "path_join a b =
     (if startswith b ''/'' then b
      else if a = [] \<or> last a = CHR ''/'' then a @ b
      else a @ ''/'' @ b)"

definition falsy :: "string option \<Rightarrow> bool" where
  \<comment> \<open>\<^verbatim>\<open>not p\<close> for a path or \<^verbatim>\<open>None\<close>\<close>
  "falsy p \<longleftrightarrow> (case p of None \<Rightarrow> True | Some s \<Rightarrow> s = [])"

definition log_msg :: "channel \<Rightarrow> message \<Rightarrow> world \<Rightarrow> world" where
  "log_msg c m w = w\<lparr>log := log w @ [(c, m)]\<rparr>"

definition http_request :: "'f env \<Rightarrow> world \<Rightarrow> string \<Rightarrow> http_result \<times> world" where
  \<comment> \<open>\<^verbatim>\<open>requests.get(url, timeout=10)\<close>: one request, recorded\<close>
  "http_request env w url = (http_get env (requests w) url, w\<lparr>requests := requests w @ [url]\<rparr>)"

definition write_file :: "'f env \<Rightarrow> world \<Rightarrow> string \<Rightarrow> string \<Rightarrow> world option" where
  \<comment> \<open>\<^verbatim>\<open>with open(path, "wb") as f: f.write(content)\<close>; \<open>None\<close> when it raises\<close>
  "write_file env w path content =
     (if can_write env path then Some (w\<lparr>files := (files w)(path \<mapsto> content)\<rparr>) else None)"

definition bmrb_url :: "string \<Rightarrow> string" where
  "bmrb_url entry_id =
     ''https://bmrb.io/ftp/pub/bmrb/entry_directories/bmr'' @ entry_id @ ''/validation/AVS_full.txt''"

definition pdb_url :: "string \<Rightarrow> string" where
  "pdb_url pdb_id = ''https://files.rcsb.org/download/'' @ pdb_id @ ''.pdb''"

definition download_bmrb :: "'f env \<Rightarrow> world \<Rightarrow> string \<Rightarrow> string option \<times> world" where
  "download_bmrb env w entry_id =
     (let url = bmrb_url entry_id;
          output_path = path_join (BMRB_DIR env) (entry_id @ ''.str'');
          (response, w1) = http_request env w url
      in case response of
           Request_Raised \<Rightarrow> (None, log_msg ERROR (Error_downloading_BMRB entry_id) w1)
         | Response status_code content \<Rightarrow>
             if status_code = 200 then
               (case write_file env w1 output_path content of
                  None \<Rightarrow> (None, log_msg ERROR (Error_downloading_BMRB entry_id) w1)
                | Some w2 \<Rightarrow> (Some output_path, log_msg INFO (Downloaded_BMRB entry_id) w2))
             else (None, log_msg WARNING (BMRB_not_found entry_id) w1))"

definition download_pdb :: "'f env \<Rightarrow> world \<Rightarrow> string \<Rightarrow> string option \<times> world" where
  \<comment> \<open>\<^verbatim>\<open>download_pdb\<close> of main.py\<close>
  "download_pdb env w pdb_id =
     (let output_path = path_join (PDB_DIR env) (pdb_id @ ''.pdb'') in
      if files w output_path \<noteq> None then
        (Some output_path, log_msg INFO (PDB_already_exists pdb_id) w)
      else
        (let url = pdb_url pdb_id;
             (response, w1) = http_request env w url
         in case response of
              Request_Raised \<Rightarrow> (None, log_msg ERROR (Error_downloading_PDB pdb_id) w1)
            | Response status_code content \<Rightarrow>
                if status_code = 200 then
                  (case write_file env w1 output_path content of
                     None \<Rightarrow> (None, log_msg ERROR (Error_downloading_PDB pdb_id) w1)
                   | Some w2 \<Rightarrow> (Some output_path, log_msg INFO (Downloaded_PDB pdb_id) w2))
                else (None, log_msg WARNING (PDB_not_found pdb_id) w1)))"

definition nmr_download_pdb :: "'f env \<Rightarrow> world \<Rightarrow> string \<Rightarrow> string option \<times> world" where
  \<comment> \<open>\<^verbatim>\<open>download_pdb\<close> of process\_nmr\_data.py: the same steps, reported with
      \<^verbatim>\<open>print\<close>, and a request without a timeout\<close>
  "nmr_download_pdb env w pdb_id =
     (let output_path = path_join (PDB_DIR env) (pdb_id @ ''.pdb'') in
      if files w output_path \<noteq> None then
        (Some output_path, log_msg PRINT (PDB_already_exists pdb_id) w)
      else
        (let w0 = log_msg PRINT (Attempting_PDB pdb_id) w;
             url = pdb_url pdb_id;
             (response, w1) = http_request env w0 url
         in case response of
              Request_Raised \<Rightarrow> (None, log_msg PRINT (Error_downloading_PDB pdb_id) w1)
            | Response status_code content \<Rightarrow>
                if status_code = 200 then
                  (case write_file env w1 output_path content of
                     None \<Rightarrow> (None, log_msg PRINT (Error_downloading_PDB pdb_id) w1)
                   | Some w2 \<Rightarrow> (Some output_path, log_msg PRINT (Downloaded_PDB pdb_id) w2))
                else (None, log_msg PRINT (PDB_not_found pdb_id) w1)))"

definition main_parse_chemical_shifts :: "'f env \<Rightarrow> world \<Rightarrow> string \<Rightarrow> 'f shift_rec list" where
  \<comment> \<open>\<^verbatim>\<open>parse_chemical_shifts\<close> of main.py; a file that cannot be opened raises inside
      \<^verbatim>\<open>try\<close>, and the empty list is returned\<close>
  "main_parse_chemical_shifts env w file_path =
     (case files w file_path of None \<Rightarrow> []
      | Some content \<Rightarrow> main_parse_lines (conv_int env) (conv_float env) (readlines content))"

definition nmr_parse_chemical_shifts :: "'f env \<Rightarrow> world \<Rightarrow> string \<Rightarrow> 'f shift_map" where
  \<comment> \<open>\<^verbatim>\<open>parse_chemical_shifts\<close> of process\_nmr\_data.py\<close>
  "nmr_parse_chemical_shifts env w bmrb_file =
     (case files w bmrb_file of None \<Rightarrow> Map.empty
      | Some content \<Rightarrow> nmr_parse_lines (conv_int env) (conv_float env) (readlines content))"

definition parse_secondary_structures :: "'f env \<Rightarrow> world \<Rightarrow> string \<Rightarrow> structure_rec list" where
  "parse_secondary_structures env w pdb_file =
     (case files w pdb_file of None \<Rightarrow> []
      | Some content \<Rightarrow>
          ss_parse_lines (conv_int env) (is_aa_standard env) (pdb_model env content)
            (readlines content))"

definition main_combine_data :: "'f env \<Rightarrow> world \<Rightarrow> string \<Rightarrow> string \<Rightarrow> 'f combined_rec list" where
  \<comment> \<open>\<^verbatim>\<open>combine_data\<close> of main.py\<close>
  "main_combine_data env w bmrb_file pdb_file =
     (let chem_shifts = main_parse_chemical_shifts env w bmrb_file;
          sec_structures = parse_secondary_structures env w pdb_file
      in main_join chem_shifts sec_structures)"

definition nmr_combine_data :: "'f env \<Rightarrow> world \<Rightarrow> string \<Rightarrow> string \<Rightarrow> 'f combined_rec list" where
  \<comment> \<open>\<^verbatim>\<open>combine_data\<close> of process\_nmr\_data.py\<close>
  "nmr_combine_data env w bmrb_file pdb_file =
     (let chem_shifts = nmr_parse_chemical_shifts env w bmrb_file;
          sec_structures = parse_secondary_structures env w pdb_file
      in nmr_join chem_shifts sec_structures)"

definition main_entry ::
  "'f env \<Rightarrow> world \<times> 'f combined_rec list \<Rightarrow> entry \<Rightarrow> world \<times> 'f combined_rec list" where
  \<comment> \<open>one turn of the loop of \<^verbatim>\<open>main\<close> on the state \<open>(world, all_data)\<close>\<close>
  "main_entry env st entry =
     (let w = fst st; all_data = snd st;
          (bmrb_file, w1) = download_bmrb env w (BMRB_ID entry);
          (pdb_file, w2) = download_pdb env w1 (PDB_ID entry)
      in if falsy bmrb_file \<or> falsy pdb_file then
           (log_msg WARNING (Skipping_entry (BMRB_ID entry) (PDB_ID entry)) w2, all_data)
         else
           (case (bmrb_file, pdb_file) of
              (Some b, Some p) \<Rightarrow> (w2, all_data @ main_combine_data env w2 b p)
            | _ \<Rightarrow> (w2, all_data)))"

definition main_loop ::
  "'f env \<Rightarrow> entry list \<Rightarrow> world \<times> 'f combined_rec list \<Rightarrow> world \<times> 'f combined_rec list" where
  "main_loop env entries st = foldl (main_entry env) st entries"

definition save_to_csv :: "'f env \<Rightarrow> world \<Rightarrow> 'f combined_rec list \<Rightarrow> string \<Rightarrow> world" where
  \<comment> \<open>\<^verbatim>\<open>pd.DataFrame(data).to_csv(output_file, index=False)\<close> inside \<^verbatim>\<open>try\<close>\<close>
  "save_to_csv env w data output_file =
     (case to_csv env data of None \<Rightarrow> w
      | Some text \<Rightarrow> (case write_file env w output_file text of None \<Rightarrow> w | Some w' \<Rightarrow> w'))"

definition bmrb_pdb_list :: "entry list" where
  "bmrb_pdb_list = [\<lparr>BMRB_ID = ''46'', PDB_ID = ''1boc''\<rparr>]"

definition main :: "'f env \<Rightarrow> world \<Rightarrow> world" where
  "main env w =
     (let (w', all_data) = main_loop env bmrb_pdb_list (w, []) in
      if all_data \<noteq> [] then
        save_to_csv env w' all_data (path_join (OUTPUT_DIR env) ''residue_data_table.csv'')
      else log_msg INFO No_valid_data w')"

section \<open>Conversions for worked examples\<close>

text \<open>
  The theorems below hold for every pair of conversions. The worked examples need a
  concrete one: on an unsigned decimal numeral, \<open>ascii_int\<close> is \<^verbatim>\<open>int\<close>, and
  \<open>ascii_float\<close> reads digits with at most one point as the exact decimal
  \<open>(m, k)\<close>, standing for \<open>m / 10 ^ k\<close>; every other text is refused.
\<close>

definition digit_value :: "char \<Rightarrow> int" where
  \<comment> \<open>the position of a digit among the ten digits\<close>
  "digit_value c = int (length (takeWhile (\<lambda>d. d \<noteq> c) ''0123456789''))"

definition decimal_value :: "string \<Rightarrow> int" where
  "decimal_value ds = foldl (\<lambda>n c. 10 * n + digit_value c) 0 ds"

definition ascii_int :: "string \<Rightarrow> int option" where
  "ascii_int s = (if s \<noteq> [] \<and> list_all is_digit s then Some (decimal_value s) else None)"

definition ascii_float :: "string \<Rightarrow> (int \<times> nat) option" where
  "ascii_float s =
     (let ip = takeWhile is_digit s; r = dropWhile is_digit s in
      if r = [] then (if ip = [] then None else Some (decimal_value ip, 0))
      else if hd r = CHR ''.'' \<and> list_all is_digit (tl r) \<and> (ip \<noteq> [] \<or> tl r \<noteq> [])
           then Some (decimal_value (ip @ tl r), length (tl r))
      else None)"

text \<open>
  Two shift records with the same residue number, and two structure records, for the
  worked examples of the join.
\<close>

definition ex_shifts :: "(int \<times> nat) shift_rec list" where
  "ex_shifts =
     [\<lparr>Residue_Type = ''K'', Residue_ID = 1, C_Shift = None, CA_Shift = Some (10, 1),
       CB_Shift = None\<rparr>,
      \<lparr>Residue_Type = ''K'', Residue_ID = 1, C_Shift = Some (17649, 2), CA_Shift = Some (5695, 2),
       CB_Shift = Some (3066, 2)\<rparr>]"

definition ex_structures :: "structure_rec list" where
  "ex_structures =
     [\<lparr>ss_Residue_ID = 0, ss_Residue_Type = ''MET'', ss_Secondary_Structure = ''C''\<rparr>,
      \<lparr>ss_Residue_ID = 1, ss_Residue_Type = ''LYS'', ss_Secondary_Structure = ''C''\<rparr>]"

section \<open>Predicates of the statements about the summary format\<close>

text \<open>
  A record \<open>r\<close> comes from the header line \<open>h\<close> when \<open>h\<close> matches the header pattern and
  gives \<open>r\<close> its type letter and its number; it takes its shifts from the line \<open>s\<close> when
  \<open>s\<close> starts with \<^verbatim>\<open>Ave C Shift Values>>\<close> and each shift entry of \<open>r\<close> is what the
  corresponding pattern finds in \<open>s\<close>. A plain line is neither a header nor a shift
  line. \<open>from_block\<close> says that the lines hold a header, plain lines, and then the shift
  line of the record; \<open>open_block\<close> is the same for the residue still being read.
\<close>

definition header_of :: "(string \<Rightarrow> int option) \<Rightarrow> string \<Rightarrow> 'f shift_rec \<Rightarrow> bool" where
  "header_of to_int h r \<longleftrightarrow>
     match_header (strip h) \<and> match_upper (strip h) = Some (Residue_Type r) \<and>
     Option.bind (search_digits (strip h)) to_int = Some (Residue_ID r)"

definition shifts_of :: "(string \<Rightarrow> 'f option) \<Rightarrow> string \<Rightarrow> 'f shift_rec \<Rightarrow> bool" where
  "shifts_of to_float s r \<longleftrightarrow>
     startswith (strip s) ''Ave C Shift Values>>'' \<and>
     float_group to_float (search_shift ''C'' (strip s)) = Some (C_Shift r) \<and>
     float_group to_float (search_shift ''CA'' (strip s)) = Some (CA_Shift r) \<and>
     float_group to_float (search_shift ''CB'' (strip s)) = Some (CB_Shift r)"

definition plain_line :: "string \<Rightarrow> bool" where
  "plain_line l \<longleftrightarrow> \<not> match_header (strip l) \<and> \<not> startswith (strip l) ''Ave C Shift Values>>''"

definition from_block ::
  "(string \<Rightarrow> int option) \<Rightarrow> (string \<Rightarrow> 'f option) \<Rightarrow> string list \<Rightarrow> 'f shift_rec \<Rightarrow> bool" where
  "from_block to_int to_float lines r \<longleftrightarrow>
     (\<exists>pre h mid s post. lines = pre @ h # mid @ s # post \<and> list_all plain_line mid \<and>
        header_of to_int h r \<and> shifts_of to_float s r)"

definition open_block ::
  "(string \<Rightarrow> int option) \<Rightarrow> string list \<Rightarrow> 'f shift_rec option \<Rightarrow> bool" where
  "open_block to_int lines cur \<longleftrightarrow>
     (case cur of None \<Rightarrow> True
      | Some r \<Rightarrow> \<exists>pre h mid. lines = pre @ h # mid \<and> list_all plain_line mid \<and>
                    header_of to_int h r \<and> C_Shift r = None \<and> CA_Shift r = None \<and> CB_Shift r = None)"

section \<open>Predicates of the statements about the tabular format\<close>

text \<open>
  A data line for residue \<open>r\<close>, atom \<open>a\<close> and value \<open>v\<close> is a line that the loop reads as
  a record once it is inside the shift block: it does not hold the marker, is neither
  blank nor a comment, has four fields or more, and its second, third and fourth fields
  are \<open>r\<close>, \<open>a\<close> and \<open>v\<close>. A malformed line has fewer than four fields, or a second field
  that \<^verbatim>\<open>int\<close> refuses, or a fourth field that \<^verbatim>\<open>float\<close> refuses. \<open>lookup\<close> reads the
  result as \<^verbatim>\<open>shifts.get(r, {}).get(a)\<close> does.
\<close>

definition data_line ::
  "(string \<Rightarrow> int option) \<Rightarrow> (string \<Rightarrow> 'f option) \<Rightarrow> string \<Rightarrow> int \<Rightarrow> string \<Rightarrow> 'f \<Rightarrow> bool" where
  "data_line to_int to_float l r a v \<longleftrightarrow>
     \<not> contains ''_Atom_chem_shift.'' l \<and> strip l \<noteq> [] \<and> \<not> startswith (strip l) ''#'' \<and>
     length (split l) \<ge> 4 \<and> to_int (split l ! 1) = Some r \<and> split l ! 2 = a \<and>
     to_float (split l ! 3) = Some v"

definition malformed :: "(string \<Rightarrow> int option) \<Rightarrow> (string \<Rightarrow> 'f option) \<Rightarrow> string \<Rightarrow> bool" where
  "malformed to_int to_float l \<longleftrightarrow>
     length (split l) < 4 \<or> to_int (split l ! 1) = None \<or> to_float (split l ! 3) = None"

definition lookup :: "'f shift_map \<Rightarrow> int \<Rightarrow> string \<Rightarrow> 'f option" where
  "lookup shifts r a = dict_get (shifts r) (\<lambda>d. d a)"

section \<open>Predicates of the statements about the structure parser\<close>

text \<open>
  The range of a HELIX record is what the first pass reads in columns 21 to 24 and 33
  to 36 of a line starting with \<^verbatim>\<open>HELIX\<close>, when both convert; the range of a SHEET
  record is read in columns 22 to 25 and 33 to 36 of a line starting with \<^verbatim>\<open>SHEET\<close>.
  \<open>ss_code\<close> is the code such a line writes for a residue number inside its range.
\<close>

definition helix_range :: "(string \<Rightarrow> int option) \<Rightarrow> string \<Rightarrow> (int \<times> int) option" where
  "helix_range to_int line =
     (if startswith line ''HELIX'' then
        (case (to_int (strip (slice 21 25 line)), to_int (strip (slice 33 37 line))) of
           (Some start, Some end) \<Rightarrow> Some (start, end)
         | _ \<Rightarrow> None)
      else None)"

definition sheet_range :: "(string \<Rightarrow> int option) \<Rightarrow> string \<Rightarrow> (int \<times> int) option" where
  "sheet_range to_int line =
     (if \<not> startswith line ''HELIX'' \<and> startswith line ''SHEET'' then
        (case (to_int (strip (slice 22 26 line)), to_int (strip (slice 33 37 line))) of
           (Some start, Some end) \<Rightarrow> Some (start, end)
         | _ \<Rightarrow> None)
      else None)"

definition in_range :: "(int \<times> int) option \<Rightarrow> int \<Rightarrow> bool" where
  "in_range rg r \<longleftrightarrow> (case rg of None \<Rightarrow> False | Some (start, end) \<Rightarrow> start \<le> r \<and> r \<le> end)"

definition ss_code :: "(string \<Rightarrow> int option) \<Rightarrow> string \<Rightarrow> int \<Rightarrow> string option" where
  "ss_code to_int line r =
     (if in_range (helix_range to_int line) r then Some ''H''
      else if in_range (sheet_range to_int line) r then Some ''E''
      else None)"

section \<open>Notions of the statements about the fetch functions\<close>

text \<open>
  \<open>pdb_path\<close> is the cache file of a PDB id, the \<^verbatim>\<open>output_path\<close> of \<^verbatim>\<open>download_pdb\<close>;
  \<open>sent w url\<close> is the state \<open>w\<close> after one request for \<open>url\<close>. The example environment
  answers 404 to the requests for BMRB entry 46 and PDB id 2abc and raises on every
  other request; the example state holds the cache file of PDB id 1boc and nothing
  else.
\<close>

definition pdb_path :: "'f env \<Rightarrow> string \<Rightarrow> string" where
  "pdb_path env pdb_id = path_join (PDB_DIR env) (pdb_id @ ''.pdb'')"

definition sent :: "world \<Rightarrow> string \<Rightarrow> world" where
  "sent w url = w\<lparr>requests := requests w @ [url]\<rparr>"

definition ex_env :: "(int \<times> nat) env" where
  "ex_env =
     \<lparr>conv_int = ascii_int, conv_float = ascii_float,
      pdb_model = (\<lambda>_. None), is_aa_standard = (\<lambda>_. True), to_csv = (\<lambda>_. None),
      http_get = (\<lambda>_ url. if url = bmrb_url ''46'' \<or> url = pdb_url ''2abc''
                            then Response 404 [] else Request_Raised),
      can_write = (\<lambda>_. True),
      BMRB_DIR = ''/data/bmrb_files'', PDB_DIR = ''/data/pdb_files'', OUTPUT_DIR = ''/output''\<rparr>"

definition ex_world :: world where
  "ex_world = \<lparr>files = [pdb_path ex_env ''1boc'' \<mapsto> ''HELIX''], requests = [], log = []\<rparr>"

section \<open>Properties of the summary-format parser\<close>

lemma header_not_shift_line:
  "match_header l \<Longrightarrow> \<not> startswith l ''Ave C Shift Values>>''"
  by (auto simp: match_header_def startswith_def is_digit_def split: list.splits)

lemma from_block_append: "from_block ti tf ls r \<Longrightarrow> from_block ti tf (ls @ xs) r"
  unfolding from_block_def by (metis append.assoc append_Cons)

lemma step_header:
  assumes "match_header (strip l)" "main_shift_step ti tf (cur, shifts) l = Some st'"
  shows "snd st' = shifts \<and> (\<exists>r. fst st' = Some r \<and> header_of ti l r \<and>
           C_Shift r = None \<and> CA_Shift r = None \<and> CB_Shift r = None)"
  using assms
  by (auto simp: main_shift_step_def header_of_def Let_def split: option.splits)

lemma step_shift_open:
  assumes "startswith (strip l) ''Ave C Shift Values>>''"
    "main_shift_step ti tf (Some r0, shifts) l = Some st'"
  shows "fst st' = None \<and> (\<exists>r. snd st' = shifts @ [r] \<and> Residue_Type r = Residue_Type r0 \<and>
           Residue_ID r = Residue_ID r0 \<and> shifts_of tf l r)"
proof -
  have nh: "\<not> match_header (strip l)"
    using assms(1) header_not_shift_line by blast
  from assms(2) nh assms(1) obtain c ca cb where
    v: "float_group tf (search_shift ''C'' (strip l)) = Some c"
       "float_group tf (search_shift ''CA'' (strip l)) = Some ca"
       "float_group tf (search_shift ''CB'' (strip l)) = Some cb"
       "st' = (None, shifts @ [r0\<lparr>C_Shift := c, CA_Shift := ca, CB_Shift := cb\<rparr>])"
    by (auto simp: main_shift_step_def Let_def split: option.splits)
  show ?thesis
    using v assms(1) by (simp add: shifts_of_def)
qed

lemma step_shift_closed:
  assumes "startswith (strip l) ''Ave C Shift Values>>''"
  shows "main_shift_step ti tf (None, shifts) l = Some (None, shifts)"
  using assms header_not_shift_line[of "strip l"]
  by (auto simp: main_shift_step_def Let_def)

lemma step_plain:
  assumes "plain_line l"
  shows "main_shift_step ti tf st l = Some st"
  using assms by (auto simp: main_shift_step_def plain_line_def Let_def)

lemma line_cases:
  obtains (header) "match_header (strip l)"
  | (shift) "startswith (strip l) ''Ave C Shift Values>>''" "\<not> match_header (strip l)"
  | (plain) "plain_line l"
  unfolding plain_line_def by blast

lemma loop_from_block:
  assumes "\<forall>r\<in>set shifts. from_block ti tf done r" "open_block ti done cur"
  shows "\<forall>r\<in>set (main_shift_loop ti tf todo (cur, shifts)). from_block ti tf (done @ todo) r"
  using assms
proof (induction todo arbitrary: "done" cur shifts)
  case Nil
  then show ?case by simp
next
  case (Cons l todo)
  show ?case
  proof (cases "main_shift_step ti tf (cur, shifts) l")
    case None
    then show ?thesis using Cons.prems(1) by (auto intro: from_block_append)
  next
    case (Some st')
    obtain cur' shifts' where st': "st' = (cur', shifts')" by (cases st')
    have "(\<forall>r\<in>set shifts'. from_block ti tf (done @ [l]) r) \<and> open_block ti (done @ [l]) cur'"
    proof (cases l rule: line_cases)
      case header
      from step_header[OF header Some] st' obtain r where
        r: "shifts' = shifts" "cur' = Some r" "header_of ti l r"
           "C_Shift r = None" "CA_Shift r = None" "CB_Shift r = None" by auto
      have "open_block ti (done @ [l]) cur'"
        unfolding open_block_def r(2) using r(3-)
        by (simp, intro exI[of _ "done"] exI[of _ l] exI[of _ "[]"]) simp
      then show ?thesis using Cons.prems(1) r(1) by (auto intro: from_block_append)
    next
      case shift
      show ?thesis
      proof (cases cur)
        case None
        with step_shift_closed[OF shift(1), of ti tf shifts] Some st'
        show ?thesis using Cons.prems(1) by (auto intro: from_block_append simp: open_block_def)
      next
        case (Some r0)
        from step_shift_open[OF shift(1), of ti tf r0 shifts st'] \<open>main_shift_step ti tf (cur, shifts) l = Some st'\<close> Some st'
        obtain r where r: "cur' = None" "shifts' = shifts @ [r]" "Residue_Type r = Residue_Type r0"
          "Residue_ID r = Residue_ID r0" "shifts_of tf l r" by auto
        from Cons.prems(2) Some obtain pre h mid where
          d: "done = pre @ h # mid" "list_all plain_line mid" "header_of ti h r0"
          by (auto simp: open_block_def)
        have "header_of ti h r" using d(3) r(3,4) by (simp add: header_of_def)
        then have "from_block ti tf (done @ [l]) r"
          unfolding from_block_def using d(1,2) r(5)
          by (intro exI[of _ pre] exI[of _ h] exI[of _ mid] exI[of _ l] exI[of _ "[]"]) simp
        then show ?thesis using Cons.prems(1) r(1,2)
          by (auto intro: from_block_append simp: open_block_def)
      qed
    next
      case plain
      from step_plain[OF plain, of ti tf "(cur, shifts)"] Some st'
      have eq: "cur' = cur" "shifts' = shifts" by auto
      have "open_block ti (done @ [l]) cur"
      proof (cases cur)
        case None
        then show ?thesis by (simp add: open_block_def)
      next
        case (Some r0)
        from Cons.prems(2) Some obtain pre h mid where
          d: "done = pre @ h # mid" "list_all plain_line mid" "header_of ti h r0"
             "C_Shift r0 = None" "CA_Shift r0 = None" "CB_Shift r0 = None"
          by (auto simp: open_block_def)
        show ?thesis unfolding open_block_def Some using d plain
          by (simp, intro exI[of _ pre] exI[of _ h] exI[of _ "mid @ [l]"]) simp
      qed
      then show ?thesis using Cons.prems(1) eq by (auto intro: from_block_append)
    qed
    then have "\<forall>r\<in>set (main_shift_loop ti tf todo (cur', shifts')). from_block ti tf ((done @ [l]) @ todo) r"
      by (intro Cons.IH) auto
    then show ?thesis using Some st' by simp
  qed
qed

lemma main_parse_from_block:
  "r \<in> set (main_parse_lines ti tf lines) \<Longrightarrow> from_block ti tf lines r"
  using loop_from_block[of "[]" ti tf "[]" None lines]
  by (simp add: main_parse_lines_def open_block_def)


lemma step_header_indep:
  assumes "match_header (strip l)"
  shows "main_shift_step ti tf (cur, shifts) l = main_shift_step ti tf (cur', shifts) l"
  using assms by (simp add: main_shift_step_def Let_def)

lemma step_header_result:
  assumes "match_header (strip l)"
  shows "main_shift_step ti tf (cur, shifts) l =
           (if Option.bind (search_digits (strip l)) ti = None then None
            else Some (fst (the (main_shift_step ti tf (cur, shifts) l)), shifts))"
  using assms
  by (auto simp: main_shift_step_def Let_def match_header_def match_upper_def
           split: option.splits list.splits)

lemma loop_plain:
  "list_all plain_line mid \<Longrightarrow>
   main_shift_loop ti tf (mid @ post) st = main_shift_loop ti tf post st"
  by (induction mid) (simp_all add: step_plain)

lemma loop_header_start:
  assumes "post = [] \<or> match_header (strip (hd post))"
  shows "main_shift_loop ti tf post (cur, shifts) = main_shift_loop ti tf post (cur', shifts)"
proof (cases post)
  case Nil
  then show ?thesis by simp
next
  case (Cons h' post')
  with assms have "match_header (strip h')" by simp
  then show ?thesis using Cons
    by (simp add: step_header_indep[of h' ti tf cur shifts cur'] split: option.splits)
qed

lemma loop_block_front:
  assumes "match_header (strip h)" "list_all plain_line mid"
    "post = [] \<or> match_header (strip (hd post))"
  shows "main_shift_loop ti tf (h # mid @ post) (cur, shifts) =
           (if Option.bind (search_digits (strip h)) ti = None then shifts
            else main_shift_loop ti tf post (cur, shifts))"
proof (cases "Option.bind (search_digits (strip h)) ti = None")
  case True
  then have "main_shift_step ti tf (cur, shifts) h = None"
    using step_header_result[OF assms(1), of ti tf cur shifts] by simp
  then show ?thesis using True by simp
next
  case False
  then obtain c where "main_shift_step ti tf (cur, shifts) h = Some (c, shifts)"
    using step_header_result[OF assms(1), of ti tf cur shifts] by auto
  moreover from False obtain y where "Option.bind (search_digits (strip h)) ti = Some y"
    by auto
  ultimately show ?thesis
    using loop_header_start[OF assms(3), of ti tf c shifts cur]
    by (simp add: loop_plain[OF assms(2)])
qed

lemma loop_block_dropped:
  assumes "match_header (strip h)" "list_all plain_line mid"
    "post = [] \<or> match_header (strip (hd post))"
  shows "main_shift_loop ti tf (pre @ h # mid @ post) st =
           (if Option.bind (search_digits (strip h)) ti = None
            then main_shift_loop ti tf pre st
            else main_shift_loop ti tf (pre @ post) st)"
proof (induction pre arbitrary: st)
  case Nil
  show ?case using loop_block_front[OF assms, of ti tf "fst st" "snd st"] by simp
next
  case (Cons l pre)
  show ?case
    by (cases "main_shift_step ti tf st l") (simp_all add: Cons.IH)
qed

lemma float_group_nonnull:
  assumes "float_group tf m = Some x"
  shows "x \<noteq> None \<longleftrightarrow> m \<noteq> None"
proof (cases m)
  case None
  then show ?thesis using assms by (auto simp: float_group_def)
next
  case (Some g)
  then show ?thesis using assms by (cases "tf g") (auto simp: float_group_def)
qed

lemma shifts_of_nonnull:
  assumes "shifts_of tf s r"
  shows "(C_Shift r \<noteq> None \<or> CA_Shift r \<noteq> None \<or> CB_Shift r \<noteq> None) \<longleftrightarrow>
         (search_shift ''C'' (strip s) \<noteq> None \<or> search_shift ''CA'' (strip s) \<noteq> None \<or>
          search_shift ''CB'' (strip s) \<noteq> None)"
  using assms float_group_nonnull[of tf "search_shift ''C'' (strip s)" "C_Shift r"]
    float_group_nonnull[of tf "search_shift ''CA'' (strip s)" "CA_Shift r"]
    float_group_nonnull[of tf "search_shift ''CB'' (strip s)" "CB_Shift r"]
  by (simp add: shifts_of_def)

text \<open>
  Claim C1, as the code has it. Every record that \<^verbatim>\<open>parse_chemical_shifts\<close> of main.py
  emits has its type and its residue number from a header line matching \<^verbatim>\<open>^[A-Z]\d+\<close>
  and its shift entries from the first \<^verbatim>\<open>Ave C Shift Values>>\<close> line after that header,
  with only plain lines between the two. One of the three entries is non-null exactly
  when that line holds one of the fields \<^verbatim>\<open>C :: n\<close>, \<^verbatim>\<open>CA :: n\<close>, \<^verbatim>\<open>CB :: n\<close>. A block with no
  shift line (a header and plain lines, followed by the end of the file or by the next
  header) adds no record: the result is that of the file without the block, or, when
  the number of its header cannot be converted, that of the lines before it.
\<close>

theorem main_parse_records:
  "(r \<in> set (main_parse_lines ti tf lines) \<longrightarrow>
      (\<exists>pre h mid s post. lines = pre @ h # mid @ s # post \<and> list_all plain_line mid \<and>
         header_of ti h r \<and> shifts_of tf s r \<and>
         ((C_Shift r \<noteq> None \<or> CA_Shift r \<noteq> None \<or> CB_Shift r \<noteq> None) \<longleftrightarrow>
          (search_shift ''C'' (strip s) \<noteq> None \<or> search_shift ''CA'' (strip s) \<noteq> None \<or>
           search_shift ''CB'' (strip s) \<noteq> None)))) \<and>
   (match_header (strip h') \<and> list_all plain_line mid' \<and>
    (post' = [] \<or> match_header (strip (hd post'))) \<longrightarrow>
      main_parse_lines ti tf (pre' @ h' # mid' @ post') =
        (if Option.bind (search_digits (strip h')) ti = None then main_parse_lines ti tf pre'
         else main_parse_lines ti tf (pre' @ post')))"
proof (intro conjI impI)
  assume "r \<in> set (main_parse_lines ti tf lines)"
  then obtain pre h mid s post where
    d: "lines = pre @ h # mid @ s # post" "list_all plain_line mid"
       "header_of ti h r" "shifts_of tf s r"
    using main_parse_from_block unfolding from_block_def by blast
  show "\<exists>pre h mid s post. lines = pre @ h # mid @ s # post \<and> list_all plain_line mid \<and>
         header_of ti h r \<and> shifts_of tf s r \<and>
         ((C_Shift r \<noteq> None \<or> CA_Shift r \<noteq> None \<or> CB_Shift r \<noteq> None) \<longleftrightarrow>
          (search_shift ''C'' (strip s) \<noteq> None \<or> search_shift ''CA'' (strip s) \<noteq> None \<or>
           search_shift ''CB'' (strip s) \<noteq> None))"
    using d shifts_of_nonnull[OF d(4)] by blast
next
  assume "match_header (strip h') \<and> list_all plain_line mid' \<and>
    (post' = [] \<or> match_header (strip (hd post')))"
  then show "main_parse_lines ti tf (pre' @ h' # mid' @ post') =
        (if Option.bind (search_digits (strip h')) ti = None then main_parse_lines ti tf pre'
         else main_parse_lines ti tf (pre' @ post'))"
    unfolding main_parse_lines_def using loop_block_dropped by blast
qed

text \<open>
  Claim C10. A line starting with \<^verbatim>\<open>Ave C Shift Values>>\<close> that is read while no residue
  is open (before the first header, or after the shift line of the last one) leaves
  the state of the loop as it was: no record is appended, and the parse of the file is
  the parse of the file without that line.
\<close>

theorem main_shift_line_without_block:
  "startswith (strip l) ''Ave C Shift Values>>'' \<Longrightarrow>
     main_shift_step ti tf (None, shifts) l = Some (None, shifts) \<and>
     main_shift_loop ti tf (l # ls) (None, shifts) = main_shift_loop ti tf ls (None, shifts) \<and>
     main_parse_lines ti tf (l # ls) = main_parse_lines ti tf ls"
  by (simp add: step_shift_closed main_parse_lines_def)

text \<open>
  The part of claim C1 that gives every emitted record a non-null shift fails on a shift
  line that holds none of the three fields, here one that lists two other carbons: the
  record is emitted with three null entries.
\<close>

theorem main_all_null_record:
  "main_parse_lines ascii_int ascii_float
     [''K1\<newline>'', ''Ave C Shift Values>> CG :: 24.9 CD :: 29.1\<newline>''] =
     [\<lparr>Residue_Type = ''K'', Residue_ID = 1, C_Shift = None, CA_Shift = None, CB_Shift = None\<rparr>]"
  by code_simp

theorem main_parse_records_witness:
  "\<lparr>Residue_Type = ''K'', Residue_ID = 1, C_Shift = None, CA_Shift = Some (5695, 2),
     CB_Shift = None\<rparr>
     \<in> set (main_parse_lines ascii_int ascii_float [''K1'', ''Ave C Shift Values>> CA :: 56.95'']) \<and>
   (\<exists>pre h mid s post.
      [''K1'', ''Ave C Shift Values>> CA :: 56.95''] = pre @ h # mid @ s # post \<and>
      list_all plain_line mid \<and>
      header_of ascii_int h \<lparr>Residue_Type = ''K'', Residue_ID = 1, C_Shift = None,
        CA_Shift = Some (5695::int, 2::nat), CB_Shift = None\<rparr> \<and>
      shifts_of ascii_float s \<lparr>Residue_Type = ''K'', Residue_ID = 1, C_Shift = None,
        CA_Shift = Some (5695, 2), CB_Shift = None\<rparr>) \<and>
   main_parse_lines ascii_int ascii_float ([''K1'', ''Ave C Shift Values>> CA :: 56.95''] @ ''G2'' # [''text''] @ []) =
     main_parse_lines ascii_int ascii_float ([''K1'', ''Ave C Shift Values>> CA :: 56.95''] @ [])"
proof -
  let ?L = "[''K1'', ''Ave C Shift Values>> CA :: 56.95'']"
  let ?r = "\<lparr>Residue_Type = ''K'', Residue_ID = 1, C_Shift = None,
    CA_Shift = Some (5695::int, 2::nat), CB_Shift = None\<rparr>"
  have mem: "?r \<in> set (main_parse_lines ascii_int ascii_float ?L)"
    by code_simp
  have blk: "match_header (strip ''G2'') \<and> list_all plain_line [''text''] \<and>
    ([] = [] \<or> match_header (strip (hd [])))"
    by code_simp
  have num: "Option.bind (search_digits (strip ''G2'')) ascii_int \<noteq> None"
    by code_simp
  note inst = main_parse_records [of ?r ascii_int ascii_float ?L "''G2''" "[''text'']" "[]" ?L]
  from inst mem have "\<exists>pre h mid s post. ?L = pre @ h # mid @ s # post \<and>
      list_all plain_line mid \<and> header_of ascii_int h ?r \<and> shifts_of ascii_float s ?r"
    by blast
  moreover from inst blk num have
    "main_parse_lines ascii_int ascii_float (?L @ ''G2'' # [''text''] @ []) =
     main_parse_lines ascii_int ascii_float (?L @ [])"
    by presburger
  ultimately show ?thesis using mem by blast
qed

theorem main_shift_line_without_block_witness:
  "startswith (strip ''Ave C Shift Values>> C :: 1.5'') ''Ave C Shift Values>>'' \<and>
   main_shift_step ascii_int ascii_float (None, []) ''Ave C Shift Values>> C :: 1.5'' = Some (None, []) \<and>
   main_parse_lines ascii_int ascii_float [''Ave C Shift Values>> C :: 1.5'', ''K1''] =
     main_parse_lines ascii_int ascii_float [''K1'']"
proof -
  have h: "startswith (strip ''Ave C Shift Values>> C :: 1.5'') ''Ave C Shift Values>>''"
    by code_simp
  show ?thesis
    using h main_shift_line_without_block [OF h, of ascii_int ascii_float "[]" "[''K1'']"]
    by blast
qed

section \<open>Properties of the tabular-format parser\<close>

lemma nmr_step_malformed:
  assumes "malformed ti tf l"
  shows "snd (nmr_shift_step ti tf st l) = snd st"
    and "\<not> contains ''_Atom_chem_shift.'' l \<Longrightarrow> nmr_shift_step ti tf st l = st"
proof -
  obtain b m where st: "st = (b, m)" by (cases st)
  have "nmr_shift_step ti tf (b, m) l = (b \<or> contains ''_Atom_chem_shift.'' l, m)"
    using assms
    by (auto simp: nmr_shift_step_def malformed_def Let_def split: option.splits)
  then show "snd (nmr_shift_step ti tf st l) = snd st"
    and "\<not> contains ''_Atom_chem_shift.'' l \<Longrightarrow> nmr_shift_step ti tf st l = st"
    by (simp_all add: st)
qed

lemma nmr_step_in_block: "fst (nmr_shift_step ti tf (True, m) l) = True"
  by (auto simp: nmr_shift_step_def Let_def split: option.splits)

lemma nmr_step_marker:
  "contains ''_Atom_chem_shift.'' l \<Longrightarrow> fst (nmr_shift_step ti tf st l) = True"
  by (simp add: nmr_shift_step_def Let_def)

lemma nmr_step_data:
  assumes "data_line ti tf l r a v"
  shows "lookup (snd (nmr_shift_step ti tf (True, m) l)) r a = Some v"
  using assms
  by (auto simp: nmr_shift_step_def data_line_def lookup_def dict_get_def Let_def
           split: option.splits)

lemma nmr_step_other:
  assumes "\<forall>v. \<not> data_line ti tf l r a v"
  shows "lookup (snd (nmr_shift_step ti tf st l)) r a = lookup (snd st) r a"
proof -
  obtain b m where st: "st = (b, m)" by (cases st)
  show ?thesis
    using assms unfolding st
    by (auto simp: nmr_shift_step_def data_line_def lookup_def dict_get_def Let_def
             split: option.splits)
qed

lemma nmr_fold_other:
  assumes "\<forall>l\<in>set ls. \<forall>v. \<not> data_line ti tf l r a v"
  shows "lookup (snd (foldl (nmr_shift_step ti tf) st ls)) r a = lookup (snd st) r a"
  using assms
  by (induction ls arbitrary: st) (simp_all add: nmr_step_other)

lemma nmr_fold_in_block:
  "fst (foldl (nmr_shift_step ti tf) (True, m) ls) = True"
proof (induction ls arbitrary: m)
  case Nil
  then show ?case by simp
next
  case (Cons l ls)
  obtain m' where "nmr_shift_step ti tf (True, m) l = (True, m')"
    using nmr_step_in_block[of ti tf m l] by (cases "nmr_shift_step ti tf (True, m) l") auto
  then show ?case using Cons.IH by simp
qed

lemma nmr_fold_marker:
  assumes "\<exists>l\<in>set ls. contains ''_Atom_chem_shift.'' l"
  shows "fst (foldl (nmr_shift_step ti tf) st ls) = True"
  using assms
proof (induction ls arbitrary: st)
  case Nil
  then show ?case by simp
next
  case (Cons l ls)
  show ?case
  proof (cases "contains ''_Atom_chem_shift.'' l")
    case True
    then obtain m' where "nmr_shift_step ti tf st l = (True, m')"
      using nmr_step_marker[of l ti tf st] by (cases "nmr_shift_step ti tf st l") auto
    then show ?thesis using nmr_fold_in_block by simp
  next
    case False
    then show ?thesis using Cons by simp
  qed
qed

lemma nmr_last_line_wins:
  assumes "\<exists>l\<in>set pre. contains ''_Atom_chem_shift.'' l"
    and "data_line ti tf l r a v"
    and "\<forall>l'\<in>set post. \<forall>v'. \<not> data_line ti tf l' r a v'"
  shows "lookup (nmr_parse_lines ti tf (pre @ l # post)) r a = Some v"
proof -
  obtain m where st: "foldl (nmr_shift_step ti tf) (False, Map.empty) pre = (True, m)"
    using nmr_fold_marker[OF assms(1), of ti tf "(False, Map.empty)"]
    by (cases "foldl (nmr_shift_step ti tf) (False, Map.empty) pre") auto
  have "lookup (snd (foldl (nmr_shift_step ti tf) (nmr_shift_step ti tf (True, m) l) post)) r a
          = Some v"
    using nmr_fold_other[OF assms(3)] nmr_step_data[OF assms(2)] by simp
  then show ?thesis by (simp add: nmr_parse_lines_def st)
qed

lemma nmr_malformed_line_dropped:
  assumes "malformed ti tf l" "\<not> contains ''_Atom_chem_shift.'' l"
  shows "nmr_parse_lines ti tf (pre @ l # post) = nmr_parse_lines ti tf (pre @ post)"
proof -
  have "foldl (nmr_shift_step ti tf) st (pre @ l # post) = foldl (nmr_shift_step ti tf) st (pre @ post)"
    for st
    by (simp add: nmr_step_malformed(2)[OF assms])
  moreover have "pre @ post = [] \<Longrightarrow> snd (foldl (nmr_shift_step ti tf) (False, Map.empty) [l]) = Map.empty"
    by (simp add: nmr_step_malformed(1)[OF assms(1)])
  ultimately show ?thesis
    by (auto simp: nmr_parse_lines_def)
qed

text \<open>
  Claim C2. Let line \<open>i\<close> of a tabular file come after a line holding the marker
  \<^verbatim>\<open>_Atom_chem_shift.\<close> and be a data line for residue \<open>r\<close> and atom \<^verbatim>\<open>CA\<close>, whose
  fourth field converts to \<open>v\<close>; let no other line after a marker be a data line for \<open>r\<close>
  and \<^verbatim>\<open>CA\<close>. Then the dictionary returned by \<^verbatim>\<open>parse_chemical_shifts\<close> of
  process\_nmr\_data.py maps \<open>r\<close> to a dictionary that maps \<^verbatim>\<open>CA\<close> to \<open>v\<close>. A line
  without the marker that has fewer than four fields, or a residue number or shift that
  does not convert, contributes nothing: the file without it parses to the same result.
\<close>

theorem nmr_unique_CA_line:
  "(i < length lines \<and> j < i \<and> contains ''_Atom_chem_shift.'' (lines ! j) \<and>
    data_line ti tf (lines ! i) r ''CA'' v \<and>
    (\<forall>k<length lines. k \<noteq> i \<longrightarrow> (\<exists>j<k. contains ''_Atom_chem_shift.'' (lines ! j)) \<longrightarrow>
       (\<forall>v'. \<not> data_line ti tf (lines ! k) r ''CA'' v'))
    \<longrightarrow> (\<exists>d. nmr_parse_lines ti tf lines r = Some d \<and> d ''CA'' = Some v)) \<and>
   (malformed ti tf l \<and> \<not> contains ''_Atom_chem_shift.'' l
    \<longrightarrow> nmr_parse_lines ti tf (pre @ l # post) = nmr_parse_lines ti tf (pre @ post))"
proof (intro conjI impI)
  assume a: "i < length lines \<and> j < i \<and> contains ''_Atom_chem_shift.'' (lines ! j) \<and>
    data_line ti tf (lines ! i) r ''CA'' v \<and>
    (\<forall>k<length lines. k \<noteq> i \<longrightarrow> (\<exists>j<k. contains ''_Atom_chem_shift.'' (lines ! j)) \<longrightarrow>
       (\<forall>v'. \<not> data_line ti tf (lines ! k) r ''CA'' v'))"
  then have i: "i < length lines" and j: "j < i" by auto
  have dec: "lines = take i lines @ lines ! i # drop (Suc i) lines"
    using i by (simp add: id_take_nth_drop)
  have "lines ! j \<in> set (take i lines)"
    using i j by (auto simp: in_set_conv_nth intro!: exI[of _ j])
  then have m: "\<exists>l\<in>set (take i lines). contains ''_Atom_chem_shift.'' l"
    using a by blast
  have later: "\<forall>l'\<in>set (drop (Suc i) lines). \<forall>v'. \<not> data_line ti tf l' r ''CA'' v'"
  proof
    fix l' assume "l' \<in> set (drop (Suc i) lines)"
    then obtain n where n: "n < length lines - Suc i" "l' = lines ! (Suc i + n)"
      by (auto simp: in_set_conv_nth)
    have "Suc i + n < length lines" "Suc i + n \<noteq> i" "j < Suc i + n"
      using n(1) j by auto
    then show "\<forall>v'. \<not> data_line ti tf l' r ''CA'' v'"
      using a n(2) by blast
  qed
  have "lookup (nmr_parse_lines ti tf (take i lines @ lines ! i # drop (Suc i) lines)) r ''CA'' = Some v"
    using nmr_last_line_wins[OF m _ later] a by blast
  then have "lookup (nmr_parse_lines ti tf lines) r ''CA'' = Some v"
    using dec by simp
  then show "\<exists>d. nmr_parse_lines ti tf lines r = Some d \<and> d ''CA'' = Some v"
    by (auto simp: lookup_def dict_get_def split: option.splits)
next
  assume "malformed ti tf l \<and> \<not> contains ''_Atom_chem_shift.'' l"
  then show "nmr_parse_lines ti tf (pre @ l # post) = nmr_parse_lines ti tf (pre @ post)"
    using nmr_malformed_line_dropped by blast
qed

text \<open>
  Claim C9. One turn of the loop of the tabular parser on a malformed line (fewer than
  four fields, or a residue field that \<^verbatim>\<open>int\<close> refuses, or a shift field that
  \<^verbatim>\<open>float\<close> refuses) returns the \<open>shifts\<close> dictionary it was given, whatever the state:
  no entry is created or changed.
\<close>

theorem nmr_malformed_line_keeps_shifts:
  "malformed ti tf l \<Longrightarrow> snd (nmr_shift_step ti tf (in_shift_block, shifts) l) = shifts"
  using nmr_step_malformed(1) [of ti tf l "(in_shift_block, shifts)"] by simp

theorem nmr_unique_CA_line_witness:
  "data_line ascii_int ascii_float ([''loop_ _Atom_chem_shift.ID'', ''1 5 CA 56.95 x''] ! 1) 5 ''CA''
     (5695, 2) \<and>
   (\<exists>d. nmr_parse_lines ascii_int ascii_float [''loop_ _Atom_chem_shift.ID'', ''1 5 CA 56.95 x''] 5
          = Some d \<and> d ''CA'' = Some (5695, 2)) \<and>
   malformed ascii_int ascii_float ''2 x CB 1.0'' \<and>
   nmr_parse_lines ascii_int ascii_float
       ([''loop_ _Atom_chem_shift.ID'', ''1 5 CA 56.95 x''] @ ''2 x CB 1.0'' # []) =
     nmr_parse_lines ascii_int ascii_float ([''loop_ _Atom_chem_shift.ID'', ''1 5 CA 56.95 x''] @ [])"
proof -
  let ?L = "[''loop_ _Atom_chem_shift.ID'', ''1 5 CA 56.95 x'']"
  have mark: "contains ''_Atom_chem_shift.'' (?L ! 0)"
    by code_simp
  have dat: "data_line ascii_int ascii_float (?L ! 1) 5 ''CA'' (5695, 2)"
    by code_simp
  have uniq: "\<forall>k<length ?L. k \<noteq> 1 \<longrightarrow> (\<exists>j<k. contains ''_Atom_chem_shift.'' (?L ! j)) \<longrightarrow>
       (\<forall>v'. \<not> data_line ascii_int ascii_float (?L ! k) 5 ''CA'' v')"
  proof (intro allI impI)
    fix k v'
    assume "k < length ?L" "k \<noteq> 1" "\<exists>j<k. contains ''_Atom_chem_shift.'' (?L ! j)"
    then have False by (cases k) auto
    then show "\<not> data_line ascii_int ascii_float (?L ! k) 5 ''CA'' v'" ..
  qed
  have bad: "malformed ascii_int ascii_float ''2 x CB 1.0'' \<and>
      \<not> contains ''_Atom_chem_shift.'' ''2 x CB 1.0''"
    by code_simp
  note inst = nmr_unique_CA_line [of 1 ?L 0 ascii_int ascii_float 5 "(5695, 2)" "''2 x CB 1.0''" ?L "[]"]
  from inst mark dat uniq
  have "\<exists>d. nmr_parse_lines ascii_int ascii_float ?L 5 = Some d \<and> d ''CA'' = Some (5695, 2)"
    by simp
  moreover from inst bad
  have "nmr_parse_lines ascii_int ascii_float (?L @ ''2 x CB 1.0'' # []) =
     nmr_parse_lines ascii_int ascii_float (?L @ [])"
    by blast
  ultimately show ?thesis using dat bad by blast
qed

theorem nmr_malformed_line_keeps_shifts_witness:
  "malformed ascii_int ascii_float ''1 x CA 56.95'' \<and>
   snd (nmr_shift_step ascii_int ascii_float (True, Map.empty) ''1 x CA 56.95'') = Map.empty"
proof -
  have bad: "malformed ascii_int ascii_float ''1 x CA 56.95''"
    by code_simp
  show ?thesis
    using bad nmr_malformed_line_keeps_shifts [OF bad, of True Map.empty] by blast
qed

section \<open>Properties of the structure parser\<close>

lemma foldl_upd:
  "foldl (\<lambda>m i. m(i \<mapsto> c)) m xs r = (if r \<in> set xs then Some c else m r)"
  by (induction xs arbitrary: m) auto

lemma assign_range_apply:
  "assign_range m start end c r = (if start \<le> r \<and> r \<le> end then Some c else m r)"
  by (simp add: assign_range_def foldl_upd)

lemma ss_step_apply:
  assumes "ss_step ti m l = Some m'"
  shows "m' r = (case ss_code ti l r of None \<Rightarrow> m r | Some c \<Rightarrow> Some c)"
  using assms
  by (auto simp: ss_step_def ss_code_def helix_range_def sheet_range_def in_range_def
        assign_range_apply split: if_splits option.splits)

lemma ss_first_pass_append:
  "ss_first_pass ti (pre @ post) m =
     (case ss_first_pass ti pre m of None \<Rightarrow> None | Some m1 \<Rightarrow> ss_first_pass ti post m1)"
  by (induction pre arbitrary: m) (auto split: option.splits)

lemma ss_first_pass_untouched:
  assumes "ss_first_pass ti ls m = Some m'" "\<forall>l\<in>set ls. ss_code ti l r = None"
  shows "m' r = m r"
  using assms
proof (induction ls arbitrary: m)
  case Nil
  then show ?case by simp
next
  case (Cons l ls)
  from Cons.prems(1) obtain m1 where
    s: "ss_step ti m l = Some m1" "ss_first_pass ti ls m1 = Some m'"
    by (auto split: option.splits)
  have "m1 r = m r" using ss_step_apply[OF s(1), of r] Cons.prems(2) by simp
  then show ?case using Cons.IH[OF s(2)] Cons.prems(2) by simp
qed

lemma ss_first_pass_last:
  assumes "ss_first_pass ti (pre @ l # post) m = Some m'"
    and "ss_code ti l r = Some c" and "\<forall>l'\<in>set post. ss_code ti l' r = None"
  shows "m' r = Some c"
proof -
  from assms(1) obtain m1 m2 where
    s: "ss_first_pass ti pre m = Some m1" "ss_step ti m1 l = Some m2"
       "ss_first_pass ti post m2 = Some m'"
    by (auto simp: ss_first_pass_append split: option.splits)
  have "m2 r = Some c" using ss_step_apply[OF s(2), of r] assms(2) by simp
  then show ?thesis using ss_first_pass_untouched[OF s(3) assms(3)] by simp
qed

lemma ss_parse_member:
  assumes "x \<in> set (ss_parse_lines ti is_aa model lines)"
  shows "\<exists>m. ss_first_pass ti lines Map.empty = Some m \<and>
             ss_Secondary_Structure x = (case m (ss_Residue_ID x) of None \<Rightarrow> ''C'' | Some c \<Rightarrow> c)"
proof (cases "ss_first_pass ti lines Map.empty")
  case None
  then show ?thesis using assms by (simp add: ss_parse_lines_def)
next
  case (Some m)
  then obtain model_chains where "x \<in> set (ss_second_pass is_aa m model_chains)"
    using assms by (cases model) (simp_all add: ss_parse_lines_def)
  then have "ss_Secondary_Structure x =
      (case m (ss_Residue_ID x) of None \<Rightarrow> ''C'' | Some c \<Rightarrow> c)"
    by (auto simp: ss_second_pass_def)
  then show ?thesis using Some by simp
qed

text \<open>
  Claim C3. When the first pass of \<^verbatim>\<open>parse_secondary_structures\<close> ends with the map
  \<open>m\<close>, a residue number inside the inclusive range of the HELIX record on line \<open>i\<close> is
  mapped to \<^verbatim>\<open>H\<close>, and one inside the range of the SHEET record on line \<open>i\<close> to \<^verbatim>\<open>E\<close>,
  provided no later line has a range that holds it (the last write wins). Every record
  the function emits has the code of its residue number in that map, and \<^verbatim>\<open>C\<close> when
  the number is absent from it.
\<close>

theorem ss_last_range_wins:
  "(ss_first_pass ti lines Map.empty = Some m \<and> i < length lines \<and>
    (helix_range ti (lines ! i) = Some (start, end) \<and> c = ''H'' \<or>
     sheet_range ti (lines ! i) = Some (start, end) \<and> c = ''E'') \<and>
    start \<le> r \<and> r \<le> end \<and>
    (\<forall>k<length lines. i < k \<longrightarrow> ss_code ti (lines ! k) r = None)
    \<longrightarrow> m r = Some c) \<and>
   (x \<in> set (ss_parse_lines ti is_aa model lines)
    \<longrightarrow> (\<exists>m. ss_first_pass ti lines Map.empty = Some m \<and>
          ss_Secondary_Structure x =
            (case m (ss_Residue_ID x) of None \<Rightarrow> ''C'' | Some c \<Rightarrow> c)))"
proof (intro conjI impI)
  assume a: "ss_first_pass ti lines Map.empty = Some m \<and> i < length lines \<and>
    (helix_range ti (lines ! i) = Some (start, end) \<and> c = ''H'' \<or>
     sheet_range ti (lines ! i) = Some (start, end) \<and> c = ''E'') \<and>
    start \<le> r \<and> r \<le> end \<and>
    (\<forall>k<length lines. i < k \<longrightarrow> ss_code ti (lines ! k) r = None)"
  then have i: "i < length lines" by simp
  have dec: "lines = take i lines @ lines ! i # drop (Suc i) lines"
    using i by (simp add: id_take_nth_drop)
  have code: "ss_code ti (lines ! i) r = Some c"
  proof -
    have "helix_range ti (lines ! i) = Some (start, end) \<Longrightarrow> sheet_range ti (lines ! i) = None"
      by (auto simp: helix_range_def sheet_range_def split: if_splits)
    moreover have "sheet_range ti (lines ! i) = Some (start, end) \<Longrightarrow> helix_range ti (lines ! i) = None"
      by (auto simp: helix_range_def sheet_range_def split: if_splits)
    ultimately show ?thesis using a by (auto simp: ss_code_def in_range_def)
  qed
  have later: "\<forall>l'\<in>set (drop (Suc i) lines). ss_code ti l' r = None"
  proof
    fix l' assume "l' \<in> set (drop (Suc i) lines)"
    then obtain n where n: "n < length lines - Suc i" "l' = lines ! (Suc i + n)"
      by (auto simp: in_set_conv_nth)
    then show "ss_code ti l' r = None" using a by simp
  qed
  have "ss_first_pass ti (take i lines @ lines ! i # drop (Suc i) lines) Map.empty = Some m"
    using a dec by simp
  then show "m r = Some c" using ss_first_pass_last code later by blast
next
  assume "x \<in> set (ss_parse_lines ti is_aa model lines)"
  then show "\<exists>m. ss_first_pass ti lines Map.empty = Some m \<and>
          ss_Secondary_Structure x =
            (case m (ss_Residue_ID x) of None \<Rightarrow> ''C'' | Some c \<Rightarrow> c)"
    by (rule ss_parse_member)
qed


theorem ss_last_range_wins_witness:
  "helix_range ascii_int ([''HELIX    1   1 LYS A    2  GLY A    5  1''] ! 0) = Some (2, 5) \<and>
   (\<exists>m. ss_first_pass ascii_int [''HELIX    1   1 LYS A    2  GLY A    5  1''] Map.empty = Some m \<and>
        m 3 = Some ''H'' \<and>
        ss_Secondary_Structure
          \<lparr>ss_Residue_ID = 9, ss_Residue_Type = ''GLY'', ss_Secondary_Structure = ''C''\<rparr> =
        (case m 9 of None \<Rightarrow> ''C'' | Some c \<Rightarrow> c)) \<and>
   \<lparr>ss_Residue_ID = 9, ss_Residue_Type = ''GLY'', ss_Secondary_Structure = ''C''\<rparr>
     \<in> set (ss_parse_lines ascii_int (\<lambda>_. True)
          (Some [[\<lparr>hetfield = '' '', resseq = 3, icode = '' '', resname = ''LYS''\<rparr>,
                  \<lparr>hetfield = '' '', resseq = 9, icode = '' '', resname = ''GLY''\<rparr>]])
          [''HELIX    1   1 LYS A    2  GLY A    5  1''])"
proof -
  let ?L = "[''HELIX    1   1 LYS A    2  GLY A    5  1'']"
  let ?x = "\<lparr>ss_Residue_ID = 9, ss_Residue_Type = ''GLY'', ss_Secondary_Structure = ''C''\<rparr>"
  let ?model = "Some [[\<lparr>hetfield = '' '', resseq = 3, icode = '' '', resname = ''LYS''\<rparr>,
                  \<lparr>hetfield = '' '', resseq = 9, icode = '' '', resname = ''GLY''\<rparr>]]"
  have "case ss_first_pass ascii_int ?L Map.empty of None \<Rightarrow> False | Some _ \<Rightarrow> True"
    by code_simp
  then obtain m0 where m0: "ss_first_pass ascii_int ?L Map.empty = Some m0"
    by (cases "ss_first_pass ascii_int ?L Map.empty") auto
  have hr: "helix_range ascii_int (?L ! 0) = Some (2, 5)"
    by code_simp
  have ar: "(2::int) \<le> 3 \<and> (3::int) \<le> 5" "(0::nat) < length ?L"
    by simp_all
  have later: "\<forall>k<length ?L. 0 < k \<longrightarrow> ss_code ascii_int (?L ! k) 3 = None"
    by simp
  have mem: "?x \<in> set (ss_parse_lines ascii_int (\<lambda>_. True) ?model ?L)"
    by code_simp
  note inst = ss_last_range_wins [of ascii_int ?L m0 0 2 5 "''H''" 3 ?x "\<lambda>_. True" ?model]
  from inst m0 hr ar later have h: "m0 3 = Some ''H''"
    by blast
  from inst mem obtain m1 where m1: "ss_first_pass ascii_int ?L Map.empty = Some m1"
    "ss_Secondary_Structure ?x = (case m1 (ss_Residue_ID ?x) of None \<Rightarrow> ''C'' | Some c \<Rightarrow> c)"
    by blast
  from m0 m1 have "m1 = m0" by simp
  with m1(2) have "ss_Secondary_Structure ?x = (case m0 9 of None \<Rightarrow> ''C'' | Some c \<Rightarrow> c)"
    by simp
  with m0 h hr mem show ?thesis by blast
qed

section \<open>Properties of the join\<close>

lemma dict_fold_cong:
  "d k = d' k \<Longrightarrow>
   foldl (\<lambda>d entry. d(Residue_ID entry \<mapsto> entry)) d xs k =
   foldl (\<lambda>d entry. d(Residue_ID entry \<mapsto> entry)) d' xs k"
proof (induction xs arbitrary: d d')
  case Nil
  then show ?case by simp
next
  case (Cons x xs)
  have "(d(Residue_ID x \<mapsto> x)) k = (d'(Residue_ID x \<mapsto> x)) k"
    using Cons.prems by simp
  then show ?case
    using Cons.IH[of "d(Residue_ID x \<mapsto> x)" "d'(Residue_ID x \<mapsto> x)"] by simp
qed

lemma dict_fold_absent:
  "\<forall>e\<in>set xs. Residue_ID e \<noteq> k \<Longrightarrow>
   foldl (\<lambda>d entry. d(Residue_ID entry \<mapsto> entry)) d xs k = d k"
  by (induction xs arbitrary: d) simp_all

lemma chem_shifts_dict_last:
  assumes "\<forall>e\<in>set post. Residue_ID e \<noteq> Residue_ID x"
  shows "chem_shifts_dict (pre @ x # post) (Residue_ID x) = Some x"
  using assms by (simp add: chem_shifts_dict_def dict_fold_absent)

lemma chem_shifts_dict_absent:
  "\<forall>e\<in>set cs. Residue_ID e \<noteq> k \<Longrightarrow> chem_shifts_dict cs k = None"
  by (simp add: chem_shifts_dict_def dict_fold_absent)

lemma chem_shifts_dict_remove:
  assumes "k \<noteq> Residue_ID e"
  shows "chem_shifts_dict (pre @ e # post) k = chem_shifts_dict (pre @ post) k"
proof -
  let ?f = "\<lambda>d entry. d(Residue_ID entry \<mapsto> entry)"
  let ?d = "foldl ?f Map.empty pre"
  have "foldl ?f (?d(Residue_ID e \<mapsto> e)) post k = foldl ?f ?d post k"
    using assms by (intro dict_fold_cong) simp
  then show ?thesis by (simp add: chem_shifts_dict_def)
qed

lemma main_join_nth:
  "i < length ss \<Longrightarrow>
   main_join cs ss ! i =
     \<lparr>out_Residue_ID = ss_Residue_ID (ss ! i),
      out_Residue_Type = ss_Residue_Type (ss ! i),
      out_C_Shift = dict_get (chem_shifts_dict cs (ss_Residue_ID (ss ! i))) C_Shift,
      out_CA_Shift = dict_get (chem_shifts_dict cs (ss_Residue_ID (ss ! i))) CA_Shift,
      out_CB_Shift = dict_get (chem_shifts_dict cs (ss_Residue_ID (ss ! i))) CB_Shift,
      out_Secondary_Structure = ss_Secondary_Structure (ss ! i)\<rparr>"
  by (simp add: main_join_def Let_def)

lemma nmr_join_nth:
  "i < length ss \<Longrightarrow>
   nmr_join m ss ! i =
     \<lparr>out_Residue_ID = ss_Residue_ID (ss ! i),
      out_Residue_Type = ss_Residue_Type (ss ! i),
      out_C_Shift = dict_get (m (ss_Residue_ID (ss ! i))) (\<lambda>d. d ''C''),
      out_CA_Shift = dict_get (m (ss_Residue_ID (ss ! i))) (\<lambda>d. d ''CA''),
      out_CB_Shift = dict_get (m (ss_Residue_ID (ss ! i))) (\<lambda>d. d ''CB''),
      out_Secondary_Structure = ss_Secondary_Structure (ss ! i)\<rparr>"
  by (simp add: nmr_join_def Let_def)

lemma main_join_columns:
  "length (main_join cs ss) = length ss"
  "map out_Residue_ID (main_join cs ss) = map ss_Residue_ID ss"
  "map out_Residue_Type (main_join cs ss) = map ss_Residue_Type ss"
  "map out_Secondary_Structure (main_join cs ss) = map ss_Secondary_Structure ss"
  by (simp_all add: main_join_def Let_def)

lemma nmr_join_columns:
  "length (nmr_join m ss) = length ss"
  "map out_Residue_ID (nmr_join m ss) = map ss_Residue_ID ss"
  "map out_Residue_Type (nmr_join m ss) = map ss_Residue_Type ss"
  "map out_Secondary_Structure (nmr_join m ss) = map ss_Secondary_Structure ss"
  by (simp_all add: nmr_join_def Let_def)

lemma main_join_remove:
  assumes "Residue_ID e \<notin> ss_Residue_ID ` set ss"
  shows "main_join (pre @ e # post) ss = main_join (pre @ post) ss"
proof -
  have "chem_shifts_dict (pre @ e # post) (ss_Residue_ID res) =
        chem_shifts_dict (pre @ post) (ss_Residue_ID res)" if "res \<in> set ss" for res
  proof (rule chem_shifts_dict_remove)
    show "ss_Residue_ID res \<noteq> Residue_ID e"
      using that assms by (metis imageI)
  qed
  then show ?thesis by (simp add: main_join_def Let_def)
qed

text \<open>
  Claim C4. For every shift list or shift mapping and every list of structure records,
  \<^verbatim>\<open>combine_data\<close> (of main.py and of process\_nmr\_data.py) returns one record per
  structure record, in the order of the structure list: the lengths agree, and the
  columns of residue numbers, residue types and structure codes are those of the
  structure list. An empty structure list gives the empty result, and the three shift
  entries of a row are null when no shift record has its residue number.
\<close>

theorem combine_one_row_per_structure:
  "length (main_join cs ss) = length ss \<and> length (nmr_join m ss) = length ss \<and>
   length (main_combine_data env w bmrb_file pdb_file) =
     length (parse_secondary_structures env w pdb_file) \<and>
   length (nmr_combine_data env w bmrb_file pdb_file) =
     length (parse_secondary_structures env w pdb_file) \<and>
   map out_Residue_ID (main_join cs ss) = map ss_Residue_ID ss \<and>
   map out_Residue_Type (main_join cs ss) = map ss_Residue_Type ss \<and>
   map out_Secondary_Structure (main_join cs ss) = map ss_Secondary_Structure ss \<and>
   map out_Residue_ID (nmr_join m ss) = map ss_Residue_ID ss \<and>
   map out_Residue_Type (nmr_join m ss) = map ss_Residue_Type ss \<and>
   map out_Secondary_Structure (nmr_join m ss) = map ss_Secondary_Structure ss \<and>
   main_join cs [] = [] \<and> nmr_join m [] = [] \<and>
   (i < length ss \<and> (\<forall>e\<in>set cs. Residue_ID e \<noteq> ss_Residue_ID (ss ! i)) \<longrightarrow>
      out_C_Shift (main_join cs ss ! i) = None \<and> out_CA_Shift (main_join cs ss ! i) = None \<and>
      out_CB_Shift (main_join cs ss ! i) = None) \<and>
   (i < length ss \<and> m (ss_Residue_ID (ss ! i)) = None \<longrightarrow>
      out_C_Shift (nmr_join m ss ! i) = None \<and> out_CA_Shift (nmr_join m ss ! i) = None \<and>
      out_CB_Shift (nmr_join m ss ! i) = None)"
proof -
  have a: "i < length ss \<and> (\<forall>e\<in>set cs. Residue_ID e \<noteq> ss_Residue_ID (ss ! i)) \<longrightarrow>
      out_C_Shift (main_join cs ss ! i) = None \<and> out_CA_Shift (main_join cs ss ! i) = None \<and>
      out_CB_Shift (main_join cs ss ! i) = None"
    by (simp add: main_join_nth chem_shifts_dict_absent dict_get_def)
  have b: "i < length ss \<and> m (ss_Residue_ID (ss ! i)) = None \<longrightarrow>
      out_C_Shift (nmr_join m ss ! i) = None \<and> out_CA_Shift (nmr_join m ss ! i) = None \<and>
      out_CB_Shift (nmr_join m ss ! i) = None"
    by (simp add: nmr_join_nth dict_get_def)
  have c: "main_join cs [] = []" "nmr_join m [] = []"
    by (simp_all add: main_join_def nmr_join_def)
  have d: "length (main_combine_data env w bmrb_file pdb_file) =
     length (parse_secondary_structures env w pdb_file)"
    "length (nmr_combine_data env w bmrb_file pdb_file) =
     length (parse_secondary_structures env w pdb_file)"
    by (simp_all add: main_combine_data_def nmr_combine_data_def main_join_columns nmr_join_columns)
  show ?thesis
    by (intro conjI a b c d main_join_columns nmr_join_columns)
qed

text \<open>
  Claim C5. The residue numbers in the output of \<^verbatim>\<open>combine_data\<close> of main.py are
  exactly those of the structure records. A shift entry whose residue number belongs to
  no structure record is in no output row, and the output is the same as without it.
\<close>

theorem combine_invents_no_residue:
  "set (map out_Residue_ID (main_join cs ss)) = ss_Residue_ID ` set ss \<and>
   set (map out_Residue_ID (main_combine_data env w bmrb_file pdb_file)) =
     ss_Residue_ID ` set (parse_secondary_structures env w pdb_file) \<and>
   (Residue_ID e \<notin> ss_Residue_ID ` set ss \<longrightarrow>
      Residue_ID e \<notin> set (map out_Residue_ID (main_join (pre @ e # post) ss)) \<and>
      main_join (pre @ e # post) ss = main_join (pre @ post) ss)"
proof -
  have ids: "set (map out_Residue_ID (main_join xs ss)) = ss_Residue_ID ` set ss" for xs ss
    by (simp add: main_join_columns(2))
  have rem: "Residue_ID e \<notin> ss_Residue_ID ` set ss \<longrightarrow>
      Residue_ID e \<notin> set (map out_Residue_ID (main_join (pre @ e # post) ss)) \<and>
      main_join (pre @ e # post) ss = main_join (pre @ post) ss"
    using ids[of "pre @ e # post" ss] main_join_remove[of e ss pre post] by blast
  have whole: "set (map out_Residue_ID (main_combine_data env w bmrb_file pdb_file)) =
     ss_Residue_ID ` set (parse_secondary_structures env w pdb_file)"
    unfolding main_combine_data_def Let_def by (rule ids)
  show ?thesis
    by (intro conjI ids whole rem)
qed

text \<open>
  Claim C8. When entry \<open>j\<close> of the shift list is the last one with its residue number,
  the lookup dictionary of \<^verbatim>\<open>combine_data\<close> of main.py maps that number to entry
  \<open>j\<close>, and every joined row with that number takes its three shifts from entry \<open>j\<close>:
  of several records with one residue number, the last survives.
\<close>

theorem combine_last_duplicate_wins:
  "j < length cs \<and> (\<forall>k<length cs. j < k \<longrightarrow> Residue_ID (cs ! k) \<noteq> Residue_ID (cs ! j)) \<longrightarrow>
     chem_shifts_dict cs (Residue_ID (cs ! j)) = Some (cs ! j) \<and>
     (\<forall>i<length ss. ss_Residue_ID (ss ! i) = Residue_ID (cs ! j) \<longrightarrow>
        out_C_Shift (main_join cs ss ! i) = C_Shift (cs ! j) \<and>
        out_CA_Shift (main_join cs ss ! i) = CA_Shift (cs ! j) \<and>
        out_CB_Shift (main_join cs ss ! i) = CB_Shift (cs ! j))"
proof (intro impI)
  assume a: "j < length cs \<and> (\<forall>k<length cs. j < k \<longrightarrow> Residue_ID (cs ! k) \<noteq> Residue_ID (cs ! j))"
  then have j: "j < length cs" by simp
  have dec: "cs = take j cs @ cs ! j # drop (Suc j) cs"
    using j by (simp add: id_take_nth_drop)
  have later: "\<forall>e\<in>set (drop (Suc j) cs). Residue_ID e \<noteq> Residue_ID (cs ! j)"
  proof
    fix e assume "e \<in> set (drop (Suc j) cs)"
    then obtain n where n: "n < length cs - Suc j" "e = cs ! (Suc j + n)"
      by (auto simp: in_set_conv_nth)
    then show "Residue_ID e \<noteq> Residue_ID (cs ! j)" using a by simp
  qed
  have "chem_shifts_dict (take j cs @ cs ! j # drop (Suc j) cs) (Residue_ID (cs ! j)) = Some (cs ! j)"
    using later by (rule chem_shifts_dict_last)
  then have d: "chem_shifts_dict cs (Residue_ID (cs ! j)) = Some (cs ! j)"
    using dec by simp
  then show "chem_shifts_dict cs (Residue_ID (cs ! j)) = Some (cs ! j) \<and>
     (\<forall>i<length ss. ss_Residue_ID (ss ! i) = Residue_ID (cs ! j) \<longrightarrow>
        out_C_Shift (main_join cs ss ! i) = C_Shift (cs ! j) \<and>
        out_CA_Shift (main_join cs ss ! i) = CA_Shift (cs ! j) \<and>
        out_CB_Shift (main_join cs ss ! i) = CB_Shift (cs ! j))"
    by (simp add: main_join_nth dict_get_def)
qed

theorem combine_one_row_per_structure_witness:
  "length (main_join ex_shifts ex_structures) = 2 \<and>
   length (nmr_join (Map.empty :: (int \<times> nat) shift_map) ex_structures) = 2 \<and>
   map out_Residue_ID (main_join ex_shifts ex_structures) = [0, 1] \<and>
   list_all (\<lambda>e. Residue_ID e \<noteq> ss_Residue_ID (ex_structures ! 0)) ex_shifts \<and>
   out_C_Shift (main_join ex_shifts ex_structures ! 0) = None \<and>
   out_CA_Shift (main_join ex_shifts ex_structures ! 0) = None \<and>
   out_CB_Shift (main_join ex_shifts ex_structures ! 0) = None \<and>
   out_C_Shift (nmr_join (Map.empty :: (int \<times> nat) shift_map) ex_structures ! 0) = None"
proof -
  have len: "length ex_structures = 2" "map ss_Residue_ID ex_structures = [0, 1]"
    by (simp_all add: ex_structures_def)
  have no: "list_all (\<lambda>e. Residue_ID e \<noteq> ss_Residue_ID (ex_structures ! 0)) ex_shifts"
    by (simp add: ex_structures_def ex_shifts_def)
  then have no': "\<forall>e\<in>set ex_shifts. Residue_ID e \<noteq> ss_Residue_ID (ex_structures ! 0)"
    by (simp add: list_all_iff)
  have i0: "0 < length ex_structures"
    by (simp add: len)
  note inst = combine_one_row_per_structure
    [of ex_shifts ex_structures "Map.empty :: (int \<times> nat) shift_map" _ _ _ _ 0]
  from inst len no no' i0 show ?thesis
    by (metis (no_types, lifting))
qed

theorem combine_invents_no_residue_witness:
  "Residue_ID (\<lparr>Residue_Type = ''G'', Residue_ID = 7, C_Shift = None, CA_Shift = Some (451::int, 1::nat),
      CB_Shift = None\<rparr>) \<notin> ss_Residue_ID ` set ex_structures \<and>
   main_join (ex_shifts @ \<lparr>Residue_Type = ''G'', Residue_ID = 7, C_Shift = None,
      CA_Shift = Some (451, 1), CB_Shift = None\<rparr> # []) ex_structures =
     main_join (ex_shifts @ []) ex_structures \<and>
   set (map out_Residue_ID (main_join ex_shifts ex_structures)) = {0, 1}"
proof -
  let ?e = "\<lparr>Residue_Type = ''G'', Residue_ID = 7, C_Shift = None,
      CA_Shift = Some (451::int, 1::nat), CB_Shift = None\<rparr>"
  have ids: "ss_Residue_ID ` set ex_structures = {0, 1}"
    by (simp add: ex_structures_def)
  have out: "Residue_ID ?e \<notin> ss_Residue_ID ` set ex_structures"
    by (simp add: ids)
  note inst = combine_invents_no_residue [of ex_shifts ex_structures _ _ _ _ ?e ex_shifts "[]"]
  from inst out ids show ?thesis
    by (metis (no_types, lifting))
qed

theorem combine_last_duplicate_wins_witness:
  "Residue_ID (ex_shifts ! 0) = Residue_ID (ex_shifts ! 1) \<and>
   chem_shifts_dict ex_shifts (Residue_ID (ex_shifts ! 1)) = Some (ex_shifts ! 1) \<and>
   out_CA_Shift (main_join ex_shifts ex_structures ! 1) = Some (5695, 2)"
proof -
  have j: "1 < length ex_shifts \<and>
      (\<forall>k<length ex_shifts. 1 < k \<longrightarrow> Residue_ID (ex_shifts ! k) \<noteq> Residue_ID (ex_shifts ! 1))"
    by (simp add: ex_shifts_def)
  have same: "Residue_ID (ex_shifts ! 0) = Residue_ID (ex_shifts ! 1)"
    by (simp add: ex_shifts_def)
  have i: "1 < length ex_structures" "ss_Residue_ID (ex_structures ! 1) = Residue_ID (ex_shifts ! 1)"
    "CA_Shift (ex_shifts ! 1) = Some (5695, 2)"
    by (simp_all add: ex_structures_def ex_shifts_def)
  note inst = combine_last_duplicate_wins [of 1 ex_shifts ex_structures]
  from inst j have "chem_shifts_dict ex_shifts (Residue_ID (ex_shifts ! 1)) = Some (ex_shifts ! 1)"
    and "\<forall>i<length ex_structures. ss_Residue_ID (ex_structures ! i) = Residue_ID (ex_shifts ! 1) \<longrightarrow>
        out_CA_Shift (main_join ex_shifts ex_structures ! i) = CA_Shift (ex_shifts ! 1)"
    by blast+
  with i same show ?thesis
    by metis
qed

section \<open>Properties of the fetch functions and the driver\<close>

lemma download_pdb_hit:
  assumes "files w (pdb_path env pdb_id) \<noteq> None"
  shows "download_pdb env w pdb_id =
           (Some (pdb_path env pdb_id), log_msg INFO (PDB_already_exists pdb_id) w)"
    and "nmr_download_pdb env w pdb_id =
           (Some (pdb_path env pdb_id), log_msg PRINT (PDB_already_exists pdb_id) w)"
  using assms by (simp_all add: download_pdb_def nmr_download_pdb_def pdb_path_def Let_def)

lemma log_msg_fields:
  "files (log_msg c m w) = files w" "requests (log_msg c m w) = requests w"
  "log (log_msg c m w) = log w @ [(c, m)]"
  by (simp_all add: log_msg_def)

lemma sent_fields:
  "files (sent w url) = files w" "requests (sent w url) = requests w @ [url]"
  "log (sent w url) = log w"
  by (simp_all add: sent_def)

lemma download_pdb_miss:
  assumes "files w (pdb_path env pdb_id) = None"
  shows "download_pdb env w pdb_id =
     (case http_get env (requests w) (pdb_url pdb_id) of
        Request_Raised \<Rightarrow>
          (None, log_msg ERROR (Error_downloading_PDB pdb_id) (sent w (pdb_url pdb_id)))
      | Response status_code content \<Rightarrow>
          if status_code = 200 then
            (if can_write env (pdb_path env pdb_id) then
               (Some (pdb_path env pdb_id),
                log_msg INFO (Downloaded_PDB pdb_id)
                  ((sent w (pdb_url pdb_id))\<lparr>files := (files w)(pdb_path env pdb_id \<mapsto> content)\<rparr>))
             else (None, log_msg ERROR (Error_downloading_PDB pdb_id) (sent w (pdb_url pdb_id))))
          else (None, log_msg WARNING (PDB_not_found pdb_id) (sent w (pdb_url pdb_id))))"
  using assms
  by (simp add: download_pdb_def pdb_path_def Let_def http_request_def write_file_def sent_def
        split: http_result.splits)

lemma download_bmrb_cases:
  "download_bmrb env w entry_id =
     (case http_get env (requests w) (bmrb_url entry_id) of
        Request_Raised \<Rightarrow>
          (None, log_msg ERROR (Error_downloading_BMRB entry_id) (sent w (bmrb_url entry_id)))
      | Response status_code content \<Rightarrow>
          if status_code = 200 then
            (if can_write env (path_join (BMRB_DIR env) (entry_id @ ''.str'')) then
               (Some (path_join (BMRB_DIR env) (entry_id @ ''.str'')),
                log_msg INFO (Downloaded_BMRB entry_id)
                  ((sent w (bmrb_url entry_id))
                     \<lparr>files := (files w)(path_join (BMRB_DIR env) (entry_id @ ''.str'') \<mapsto> content)\<rparr>))
             else (None, log_msg ERROR (Error_downloading_BMRB entry_id) (sent w (bmrb_url entry_id))))
          else (None, log_msg WARNING (BMRB_not_found entry_id) (sent w (bmrb_url entry_id))))"
  by (simp add: download_bmrb_def Let_def http_request_def write_file_def sent_def
        split: http_result.splits)

lemma download_bmrb_one_request:
  "requests (snd (download_bmrb env w entry_id)) = requests w @ [bmrb_url entry_id]"
  by (simp add: download_bmrb_cases log_msg_fields sent_fields split: http_result.splits)

lemma download_pdb_requests:
  "requests (snd (download_pdb env w pdb_id)) =
     (if files w (pdb_path env pdb_id) \<noteq> None then requests w
      else requests w @ [pdb_url pdb_id])"
proof (cases "files w (pdb_path env pdb_id)")
  case None
  then show ?thesis
    by (simp add: download_pdb_miss log_msg_fields sent_fields split: http_result.splits)
next
  case (Some a)
  then show ?thesis
    by (simp add: download_pdb_hit log_msg_fields)
qed

lemma main_entry_skip:
  assumes "fst (download_bmrb env w (BMRB_ID entry)) = None \<or>
           fst (download_pdb env (snd (download_bmrb env w (BMRB_ID entry))) (PDB_ID entry)) = None"
  shows "main_entry env (w, all_data) entry =
           (log_msg WARNING (Skipping_entry (BMRB_ID entry) (PDB_ID entry))
              (snd (download_pdb env (snd (download_bmrb env w (BMRB_ID entry))) (PDB_ID entry))),
            all_data)"
  using assms
  by (auto simp: main_entry_def Let_def falsy_def split: prod.splits)

text \<open>
  Claim C6. When the cache file of a PDB id exists, \<^verbatim>\<open>download_pdb\<close> (of main.py and of
  process\_nmr\_data.py) returns its path and leaves the files and the list of requests
  as they were: no network call is made. A second call in succession returns the same
  path, again without a request. That path is the one a successful fetch of the id
  returns: after a fetch answered with status 200 and written, the file exists, and the
  next call returns the same path without a further request.
\<close>

theorem download_pdb_cached:
  "(files w (pdb_path env pdb_id) \<noteq> None \<longrightarrow>
      download_pdb env w pdb_id =
        (Some (pdb_path env pdb_id), log_msg INFO (PDB_already_exists pdb_id) w) \<and>
      nmr_download_pdb env w pdb_id =
        (Some (pdb_path env pdb_id), log_msg PRINT (PDB_already_exists pdb_id) w) \<and>
      requests (snd (download_pdb env w pdb_id)) = requests w \<and>
      files (snd (download_pdb env w pdb_id)) = files w \<and>
      requests (snd (nmr_download_pdb env w pdb_id)) = requests w \<and>
      files (snd (nmr_download_pdb env w pdb_id)) = files w \<and>
      fst (download_pdb env (snd (download_pdb env w pdb_id)) pdb_id) =
        fst (download_pdb env w pdb_id) \<and>
      fst (nmr_download_pdb env (snd (nmr_download_pdb env w pdb_id)) pdb_id) =
        fst (nmr_download_pdb env w pdb_id) \<and>
      requests (snd (download_pdb env (snd (download_pdb env w pdb_id)) pdb_id)) = requests w) \<and>
   (files w (pdb_path env pdb_id) = None \<and>
    http_get env (requests w) (pdb_url pdb_id) = Response 200 content \<and>
    can_write env (pdb_path env pdb_id) \<longrightarrow>
      fst (download_pdb env w pdb_id) = Some (pdb_path env pdb_id) \<and>
      files (snd (download_pdb env w pdb_id)) (pdb_path env pdb_id) = Some content \<and>
      fst (download_pdb env (snd (download_pdb env w pdb_id)) pdb_id) =
        Some (pdb_path env pdb_id) \<and>
      requests (snd (download_pdb env (snd (download_pdb env w pdb_id)) pdb_id)) =
        requests w @ [pdb_url pdb_id])"
proof (intro conjI impI)
  assume hit: "files w (pdb_path env pdb_id) \<noteq> None"
  note h = download_pdb_hit[OF hit]
  show "download_pdb env w pdb_id =
        (Some (pdb_path env pdb_id), log_msg INFO (PDB_already_exists pdb_id) w)"
    by (rule h(1))
  show "nmr_download_pdb env w pdb_id =
        (Some (pdb_path env pdb_id), log_msg PRINT (PDB_already_exists pdb_id) w)"
    by (rule h(2))
  show "requests (snd (download_pdb env w pdb_id)) = requests w"
    "files (snd (download_pdb env w pdb_id)) = files w"
    "requests (snd (nmr_download_pdb env w pdb_id)) = requests w"
    "files (snd (nmr_download_pdb env w pdb_id)) = files w"
    by (simp_all add: h log_msg_fields)
  have hit1: "files (log_msg INFO (PDB_already_exists pdb_id) w) (pdb_path env pdb_id) \<noteq> None"
    and hit2: "files (log_msg PRINT (PDB_already_exists pdb_id) w) (pdb_path env pdb_id) \<noteq> None"
    using hit by (simp_all add: log_msg_fields)
  show "fst (download_pdb env (snd (download_pdb env w pdb_id)) pdb_id) =
        fst (download_pdb env w pdb_id)"
    by (simp add: h download_pdb_hit(1)[OF hit1])
  show "fst (nmr_download_pdb env (snd (nmr_download_pdb env w pdb_id)) pdb_id) =
        fst (nmr_download_pdb env w pdb_id)"
    by (simp add: h download_pdb_hit(2)[OF hit2])
  show "requests (snd (download_pdb env (snd (download_pdb env w pdb_id)) pdb_id)) = requests w"
    by (simp add: h download_pdb_hit(1)[OF hit1] log_msg_fields)
next
  assume a: "files w (pdb_path env pdb_id) = None \<and>
    http_get env (requests w) (pdb_url pdb_id) = Response 200 content \<and>
    can_write env (pdb_path env pdb_id)"
  let ?w1 = "log_msg INFO (Downloaded_PDB pdb_id)
     ((sent w (pdb_url pdb_id))\<lparr>files := (files w)(pdb_path env pdb_id \<mapsto> content)\<rparr>)"
  have first: "download_pdb env w pdb_id = (Some (pdb_path env pdb_id), ?w1)"
    using a by (simp add: download_pdb_miss)
  have w1: "files ?w1 (pdb_path env pdb_id) = Some content"
    "requests ?w1 = requests w @ [pdb_url pdb_id]"
    by (simp_all add: log_msg_fields sent_fields)
  then have hit: "files ?w1 (pdb_path env pdb_id) \<noteq> None" by simp
  show "fst (download_pdb env w pdb_id) = Some (pdb_path env pdb_id)"
    by (simp add: first)
  show "files (snd (download_pdb env w pdb_id)) (pdb_path env pdb_id) = Some content"
    by (simp only: first snd_conv w1)
  show "fst (download_pdb env (snd (download_pdb env w pdb_id)) pdb_id) =
        Some (pdb_path env pdb_id)"
    by (simp only: first snd_conv download_pdb_hit(1)[OF hit] fst_conv)
  show "requests (snd (download_pdb env (snd (download_pdb env w pdb_id)) pdb_id)) =
        requests w @ [pdb_url pdb_id]"
    by (simp add: first download_pdb_hit(1)[OF hit] log_msg_fields sent_fields)
qed

text \<open>
  Claim C7. A fetch answered with a status other than 200 returns \<^verbatim>\<open>None\<close> after the
  not-found warning, and a fetch whose request raises returns \<^verbatim>\<open>None\<close> after the error
  message; each has made exactly one request. When either fetch of an entry returns
  \<^verbatim>\<open>None\<close>, the turn of the driver leaves the accumulated records as they were, logs
  the skip, and the loop goes on with the next entry from there; the requests of the
  turn are one for the BMRB file and at most one for the PDB file, so nothing is
  retried. Every raise inside the fetch functions is a branch that returns \<^verbatim>\<open>None\<close>:
  the turn has a result in every case.
\<close>

theorem failed_fetch_skips_entry:
  "(http_get env (requests w) (bmrb_url (BMRB_ID entry)) = Response status content \<and>
    status \<noteq> 200 \<longrightarrow>
      download_bmrb env w (BMRB_ID entry) =
        (None, log_msg WARNING (BMRB_not_found (BMRB_ID entry))
                 (sent w (bmrb_url (BMRB_ID entry))))) \<and>
   (http_get env (requests w) (bmrb_url (BMRB_ID entry)) = Request_Raised \<longrightarrow>
      download_bmrb env w (BMRB_ID entry) =
        (None, log_msg ERROR (Error_downloading_BMRB (BMRB_ID entry))
                 (sent w (bmrb_url (BMRB_ID entry))))) \<and>
   (files w (pdb_path env (PDB_ID entry)) = None \<and>
    http_get env (requests w) (pdb_url (PDB_ID entry)) = Response status content \<and>
    status \<noteq> 200 \<longrightarrow>
      download_pdb env w (PDB_ID entry) =
        (None, log_msg WARNING (PDB_not_found (PDB_ID entry))
                 (sent w (pdb_url (PDB_ID entry))))) \<and>
   (files w (pdb_path env (PDB_ID entry)) = None \<and>
    http_get env (requests w) (pdb_url (PDB_ID entry)) = Request_Raised \<longrightarrow>
      download_pdb env w (PDB_ID entry) =
        (None, log_msg ERROR (Error_downloading_PDB (PDB_ID entry))
                 (sent w (pdb_url (PDB_ID entry))))) \<and>
   (fst (download_bmrb env w (BMRB_ID entry)) = None \<or>
    fst (download_pdb env (snd (download_bmrb env w (BMRB_ID entry))) (PDB_ID entry)) = None \<longrightarrow>
      snd (main_entry env (w, all_data) entry) = all_data \<and>
      main_loop env (entry # rest) (w, all_data) =
        main_loop env rest (fst (main_entry env (w, all_data) entry), all_data) \<and>
      log (fst (main_entry env (w, all_data) entry)) =
        log (snd (download_pdb env (snd (download_bmrb env w (BMRB_ID entry))) (PDB_ID entry))) @
        [(WARNING, Skipping_entry (BMRB_ID entry) (PDB_ID entry))] \<and>
      requests (fst (main_entry env (w, all_data) entry)) =
        requests w @ bmrb_url (BMRB_ID entry) #
          (if files (snd (download_bmrb env w (BMRB_ID entry))) (pdb_path env (PDB_ID entry)) \<noteq> None
           then [] else [pdb_url (PDB_ID entry)]))"
proof (intro conjI impI)
  assume "http_get env (requests w) (bmrb_url (BMRB_ID entry)) = Response status content \<and>
    status \<noteq> 200"
  then show "download_bmrb env w (BMRB_ID entry) =
        (None, log_msg WARNING (BMRB_not_found (BMRB_ID entry))
                 (sent w (bmrb_url (BMRB_ID entry))))"
    by (simp add: download_bmrb_cases)
next
  assume "http_get env (requests w) (bmrb_url (BMRB_ID entry)) = Request_Raised"
  then show "download_bmrb env w (BMRB_ID entry) =
        (None, log_msg ERROR (Error_downloading_BMRB (BMRB_ID entry))
                 (sent w (bmrb_url (BMRB_ID entry))))"
    by (simp add: download_bmrb_cases)
next
  assume "files w (pdb_path env (PDB_ID entry)) = None \<and>
    http_get env (requests w) (pdb_url (PDB_ID entry)) = Response status content \<and>
    status \<noteq> 200"
  then show "download_pdb env w (PDB_ID entry) =
        (None, log_msg WARNING (PDB_not_found (PDB_ID entry))
                 (sent w (pdb_url (PDB_ID entry))))"
    by (simp add: download_pdb_miss)
next
  assume "files w (pdb_path env (PDB_ID entry)) = None \<and>
    http_get env (requests w) (pdb_url (PDB_ID entry)) = Request_Raised"
  then show "download_pdb env w (PDB_ID entry) =
        (None, log_msg ERROR (Error_downloading_PDB (PDB_ID entry))
                 (sent w (pdb_url (PDB_ID entry))))"
    by (simp add: download_pdb_miss)
next
  assume f: "fst (download_bmrb env w (BMRB_ID entry)) = None \<or>
    fst (download_pdb env (snd (download_bmrb env w (BMRB_ID entry))) (PDB_ID entry)) = None"
  note sk = main_entry_skip[OF f, of all_data]
  show "snd (main_entry env (w, all_data) entry) = all_data"
    by (simp add: sk)
  show "main_loop env (entry # rest) (w, all_data) =
        main_loop env rest (fst (main_entry env (w, all_data) entry), all_data)"
    by (simp add: main_loop_def sk)
  show "log (fst (main_entry env (w, all_data) entry)) =
        log (snd (download_pdb env (snd (download_bmrb env w (BMRB_ID entry))) (PDB_ID entry))) @
        [(WARNING, Skipping_entry (BMRB_ID entry) (PDB_ID entry))]"
    by (simp add: sk log_msg_fields)
  show "requests (fst (main_entry env (w, all_data) entry)) =
        requests w @ bmrb_url (BMRB_ID entry) #
          (if files (snd (download_bmrb env w (BMRB_ID entry))) (pdb_path env (PDB_ID entry)) \<noteq> None
           then [] else [pdb_url (PDB_ID entry)])"
    by (simp add: sk log_msg_fields download_pdb_requests download_bmrb_one_request)
qed


theorem download_pdb_cached_witness:
  "files ex_world (pdb_path ex_env ''1boc'') \<noteq> None \<and>
   fst (download_pdb ex_env ex_world ''1boc'') = Some (pdb_path ex_env ''1boc'') \<and>
   fst (nmr_download_pdb ex_env ex_world ''1boc'') = Some (pdb_path ex_env ''1boc'') \<and>
   requests (snd (download_pdb ex_env ex_world ''1boc'')) = [] \<and>
   fst (download_pdb ex_env (snd (download_pdb ex_env ex_world ''1boc'')) ''1boc'') =
     fst (download_pdb ex_env ex_world ''1boc'') \<and>
   files (ex_world\<lparr>files := Map.empty\<rparr>) (pdb_path ex_env ''1boc'') = None \<and>
   fst (download_pdb (ex_env\<lparr>http_get := \<lambda>_ _. Response 200 ''ATOM''\<rparr>)
          (ex_world\<lparr>files := Map.empty\<rparr>) ''1boc'') = Some (pdb_path ex_env ''1boc'')"
proof -
  let ?env = "ex_env\<lparr>http_get := \<lambda>_ _. Response 200 ''ATOM''\<rparr>"
  let ?w = "ex_world\<lparr>files := Map.empty\<rparr>"
  have hit: "files ex_world (pdb_path ex_env ''1boc'') \<noteq> None"
    by (simp add: ex_world_def)
  have req: "requests ex_world = []"
    by (simp add: ex_world_def)
  have same: "pdb_path ?env ''1boc'' = pdb_path ex_env ''1boc''"
    by (simp add: pdb_path_def)
  have miss: "files ?w (pdb_path ?env ''1boc'') = None \<and>
      http_get ?env (requests ?w) (pdb_url ''1boc'') = Response 200 ''ATOM'' \<and>
      can_write ?env (pdb_path ?env ''1boc'')"
    by (simp add: ex_env_def)
  note inst1 = download_pdb_cached [of ex_world ex_env "''1boc''"]
  note inst2 = download_pdb_cached [of ?w ?env "''1boc''" "''ATOM''"]
  from inst1 hit have
    "download_pdb ex_env ex_world ''1boc'' =
       (Some (pdb_path ex_env ''1boc''), log_msg INFO (PDB_already_exists ''1boc'') ex_world)"
    "nmr_download_pdb ex_env ex_world ''1boc'' =
       (Some (pdb_path ex_env ''1boc''), log_msg PRINT (PDB_already_exists ''1boc'') ex_world)"
    "requests (snd (download_pdb ex_env ex_world ''1boc'')) = requests ex_world"
    "fst (download_pdb ex_env (snd (download_pdb ex_env ex_world ''1boc'')) ''1boc'') =
       fst (download_pdb ex_env ex_world ''1boc'')"
    by blast+
  moreover from inst2 miss have
    "fst (download_pdb ?env ?w ''1boc'') = Some (pdb_path ?env ''1boc'')"
    by blast
  ultimately show ?thesis
    using hit req same miss by simp
qed

theorem failed_fetch_skips_entry_witness:
  "http_get ex_env (requests ex_world) (bmrb_url (BMRB_ID \<lparr>BMRB_ID = ''46'', PDB_ID = ''1boc''\<rparr>)) =
     Response 404 [] \<and>
   fst (download_bmrb ex_env ex_world ''46'') = None \<and>
   log (snd (download_bmrb ex_env ex_world ''46'')) = [(WARNING, BMRB_not_found ''46'')] \<and>
   http_get ex_env (requests ex_world) (bmrb_url (BMRB_ID \<lparr>BMRB_ID = ''47'', PDB_ID = ''1boc''\<rparr>)) =
     Request_Raised \<and>
   fst (download_bmrb ex_env ex_world ''47'') = None \<and>
   log (snd (download_bmrb ex_env ex_world ''47'')) = [(ERROR, Error_downloading_BMRB ''47'')] \<and>
   fst (download_pdb ex_env ex_world ''2abc'') = None \<and>
   log (snd (download_pdb ex_env ex_world ''2abc'')) = [(WARNING, PDB_not_found ''2abc'')] \<and>
   fst (download_pdb ex_env ex_world ''3xyz'') = None \<and>
   log (snd (download_pdb ex_env ex_world ''3xyz'')) = [(ERROR, Error_downloading_PDB ''3xyz'')] \<and>
   snd (main_entry ex_env (ex_world, []) \<lparr>BMRB_ID = ''46'', PDB_ID = ''1boc''\<rparr>) = [] \<and>
   requests (fst (main_entry ex_env (ex_world, []) \<lparr>BMRB_ID = ''46'', PDB_ID = ''1boc''\<rparr>)) =
     [bmrb_url ''46''] \<and>
   snd (main_loop ex_env [\<lparr>BMRB_ID = ''46'', PDB_ID = ''1boc''\<rparr>] (ex_world, [])) = []"
proof -
  let ?e = "\<lparr>BMRB_ID = ''46'', PDB_ID = ''1boc''\<rparr>"
  let ?e' = "\<lparr>BMRB_ID = ''47'', PDB_ID = ''1boc''\<rparr>"
  have nf: "http_get ex_env (requests ex_world) (bmrb_url (BMRB_ID ?e)) = Response 404 [] \<and>
      (404::nat) \<noteq> 200"
    by (simp add: ex_env_def)
  have rs: "http_get ex_env (requests ex_world) (bmrb_url (BMRB_ID ?e')) = Request_Raised"
    by (simp add: ex_env_def bmrb_url_def pdb_url_def)
  let ?p = "\<lparr>BMRB_ID = ''46'', PDB_ID = ''2abc''\<rparr>"
  let ?p' = "\<lparr>BMRB_ID = ''46'', PDB_ID = ''3xyz''\<rparr>"
  have pnf: "files ex_world (pdb_path ex_env (PDB_ID ?p)) = None \<and>
      http_get ex_env (requests ex_world) (pdb_url (PDB_ID ?p)) = Response 404 [] \<and>
      (404::nat) \<noteq> 200"
    by (simp add: ex_env_def ex_world_def pdb_path_def path_join_def startswith_def)
  have prs: "files ex_world (pdb_path ex_env (PDB_ID ?p')) = None \<and>
      http_get ex_env (requests ex_world) (pdb_url (PDB_ID ?p')) = Request_Raised"
    by (simp add: ex_env_def ex_world_def pdb_path_def path_join_def startswith_def
          bmrb_url_def pdb_url_def)
  from failed_fetch_skips_entry [of ex_env ex_world ?p 404 "[]"] pnf
  have dp: "download_pdb ex_env ex_world (PDB_ID ?p) =
      (None, log_msg WARNING (PDB_not_found (PDB_ID ?p)) (sent ex_world (pdb_url (PDB_ID ?p))))"
    by blast
  from failed_fetch_skips_entry [of ex_env ex_world ?p'] prs
  have dp': "download_pdb ex_env ex_world (PDB_ID ?p') =
      (None, log_msg ERROR (Error_downloading_PDB (PDB_ID ?p'))
        (sent ex_world (pdb_url (PDB_ID ?p'))))"
    by blast
  have w0: "log ex_world = []" "requests ex_world = []"
    "files ex_world (pdb_path ex_env ''1boc'') \<noteq> None"
    by (simp_all add: ex_world_def)
  note inst = failed_fetch_skips_entry [of ex_env ex_world ?e 404 "[]" "[]" "[]"]
  note inst' = failed_fetch_skips_entry [of ex_env ex_world ?e']
  from inst nf have d: "download_bmrb ex_env ex_world (BMRB_ID ?e) =
      (None, log_msg WARNING (BMRB_not_found (BMRB_ID ?e)) (sent ex_world (bmrb_url (BMRB_ID ?e))))"
    by blast
  from inst' rs have d': "download_bmrb ex_env ex_world (BMRB_ID ?e') =
      (None, log_msg ERROR (Error_downloading_BMRB (BMRB_ID ?e'))
        (sent ex_world (bmrb_url (BMRB_ID ?e'))))"
    by blast
  from d have f: "fst (download_bmrb ex_env ex_world (BMRB_ID ?e)) = None"
    by simp
  note sk0 = mp [OF inst [THEN conjunct2, THEN conjunct2, THEN conjunct2, THEN conjunct2]
    disjI1 [OF f]]
  note sk = sk0 [THEN conjunct1] sk0 [THEN conjunct2, THEN conjunct1]
    sk0 [THEN conjunct2, THEN conjunct2, THEN conjunct2]
  have l: "snd (main_loop ex_env [?e] (ex_world, [])) = []"
    by (simp add: main_loop_def sk(1))
  have c1: "fst (download_bmrb ex_env ex_world ''46'') = None"
    "log (snd (download_bmrb ex_env ex_world ''46'')) = [(WARNING, BMRB_not_found ''46'')]"
    using d w0 by (simp_all add: log_msg_fields sent_fields)
  have c2: "fst (download_bmrb ex_env ex_world ''47'') = None"
    "log (snd (download_bmrb ex_env ex_world ''47'')) = [(ERROR, Error_downloading_BMRB ''47'')]"
    using d' w0 by (simp_all add: log_msg_fields sent_fields)
  have c4: "fst (download_pdb ex_env ex_world ''2abc'') = None"
    "log (snd (download_pdb ex_env ex_world ''2abc'')) = [(WARNING, PDB_not_found ''2abc'')]"
    "fst (download_pdb ex_env ex_world ''3xyz'') = None"
    "log (snd (download_pdb ex_env ex_world ''3xyz'')) = [(ERROR, Error_downloading_PDB ''3xyz'')]"
    using dp dp' w0 by (simp_all add: log_msg_fields sent_fields)
  have c3: "requests (fst (main_entry ex_env (ex_world, []) ?e)) = [bmrb_url ''46'']"
    using sk(3) d w0 by (simp add: log_msg_fields sent_fields)
  from nf have nf': "http_get ex_env (requests ex_world) (bmrb_url (BMRB_ID ?e)) = Response 404 []"
    by (rule conjunct1)
  show ?thesis
    by (intro conjI nf' rs c1 c2 c3 c4 sk(1) l)
qed

end
